theory Spec2Isabelle
  imports Complex_Main "HOL-Library.AList" "HOL-Library.Sublist" "HOL-Library.Char_ord"
    "HOL-Library.List_Lexorder"
begin

section \<open>Python strings\<close>

text \<open>
  A Python \<open>str\<close> is a sequence of code points and \<open>len\<close> counts them. The model
  uses \<open>string\<close>, one \<open>char\<close> per code point, which covers the code points below 256.
\<close>

definition isspace :: "char \<Rightarrow> bool" where
  \<comment> \<open>\<open>str.isspace\<close> on one code point below 256: TAB, LF, VT, FF, CR, the separators
      FS, GS, RS, US, the space, NEL and the no-break space.\<close>
  "isspace c = (of_char c \<in> {9, 10, 11, 12, 13, 28, 29, 30, 31, 32, 133, 160 :: nat})"

definition lstrip :: "string \<Rightarrow> string" where
  "lstrip s = dropWhile isspace s"

definition rstrip :: "string \<Rightarrow> string" where
  "rstrip s = rev (dropWhile isspace (rev s))"

definition strip :: "string \<Rightarrow> string" where
  \<comment> \<open>\<open>s.strip()\<close> with no argument: whitespace removed at both ends.\<close>
  "strip s = rstrip (lstrip s)"

fun str_split :: "string \<Rightarrow> string \<Rightarrow> string list" where
  \<comment> \<open>\<open>s.split(sep)\<close> for a non-empty \<open>sep\<close>: the occurrences of \<open>sep\<close> are found from
      the left and do not overlap. Python raises ValueError for the empty separator;
      the only call passes the literal of two newlines, and the model returns \<open>[s]\<close>
      for an empty \<open>sep\<close>.\<close>
  "str_split sep [] = [[]]"
| "str_split sep (c # cs) =
     (if sep \<noteq> [] \<and> prefix sep (c # cs)
      then [] # str_split sep (drop (length sep) (c # cs))
      else (case str_split sep cs of
              [] \<Rightarrow> [[c]]
            | p # ps \<Rightarrow> (c # p) # ps))"

fun join :: "string \<Rightarrow> string list \<Rightarrow> string" where
  \<comment> \<open>\<open>sep.join(xs)\<close>\<close>
  "join sep [] = []"
| "join sep [x] = x"
| "join sep (x # y # ys) = x @ sep @ join sep (y # ys)"

definition digit_char :: "nat \<Rightarrow> char" where
  "digit_char d = char_of (48 + d)"

fun str_nat :: "nat \<Rightarrow> string" where
  \<comment> \<open>the decimal text that an f-string gives for a non-negative \<open>int\<close>\<close>
  "str_nat n = (if n < 10 then [digit_char n] else str_nat (n div 10) @ [digit_char (n mod 10)])"

declare str_nat.simps [simp del]

section \<open>The chunker\<close>

definition MIN_CHUNK_LENGTH :: nat where
  "MIN_CHUNK_LENGTH = 50"

definition split_paragraphs :: "string \<Rightarrow> string list" where
  \<comment> \<open>\<open>VectorStore._split_paragraphs\<close>: the comprehension tests \<open>len(p.strip())\<close> on each
      paragraph and collects \<open>p.strip()\<close>.\<close>
  "split_paragraphs txt =
     (let paragraphs = str_split ''\<newline>\<newline>'' txt
      in map strip (filter (\<lambda>p. MIN_CHUNK_LENGTH \<le> length (strip p)) paragraphs))"


section \<open>Exceptions and the memory directory\<close>

datatype error = FileNotFoundError | BackendError

text \<open>
  Every path the memory store uses lies in the directory \<open>workspace/memory\<close>, so a path
  is modelled by its file name. The directory is \<open>None\<close> when it does not exist and
  otherwise the list of its files, each with the text that was written to it.

  \<open>Path.write_text\<close> and \<open>Path.read_text\<close> open the file in text mode with
  \<open>newline=None\<close>. On writing, a line feed becomes the platform's line separator, which
  on POSIX is the line feed itself, so the file holds the text as given. On reading,
  universal newlines are on: a carriage return followed by a line feed, and a carriage
  return alone, both come back as one line feed.
\<close>

fun universal_newlines :: "string \<Rightarrow> string" where
  "universal_newlines [] = []"
| "universal_newlines [c] = [if c = CHR 0x0D then CHR ''\<newline>'' else c]"
| "universal_newlines (c # e # cs) =
     (if c = CHR 0x0D
      then (if e = CHR ''\<newline>''
            then CHR ''\<newline>'' # universal_newlines cs
            else CHR ''\<newline>'' # universal_newlines (e # cs))
      else c # universal_newlines (e # cs))"

type_synonym directory = "(string \<times> string) list option"

definition path_exists :: "directory \<Rightarrow> string \<Rightarrow> bool" where
  "path_exists d name = (case d of None \<Rightarrow> False | Some fs \<Rightarrow> map_of fs name \<noteq> None)"

definition read_text :: "directory \<Rightarrow> string \<Rightarrow> error + string" where
  "read_text d name =
     (case d of
        None \<Rightarrow> Inl FileNotFoundError
      | Some fs \<Rightarrow> (case map_of fs name of
                     None \<Rightarrow> Inl FileNotFoundError
                   | Some content \<Rightarrow> Inr (universal_newlines content)))"

definition write_text :: "directory \<Rightarrow> string \<Rightarrow> string \<Rightarrow> error + directory" where
  "write_text d name content =
     (case d of
        None \<Rightarrow> Inl FileNotFoundError
      | Some fs \<Rightarrow> Inr (Some (AList.update name content fs)))"

fun rfind :: "char \<Rightarrow> string \<Rightarrow> nat option" where
  \<comment> \<open>\<open>s.rfind(c)\<close>, with \<open>None\<close> for Python's -1\<close>
  "rfind c [] = None"
| "rfind c (x # xs) =
     (case rfind c xs of
        Some i \<Rightarrow> Some (Suc i)
      | None \<Rightarrow> if x = c then Some 0 else None)"

definition stem :: "string \<Rightarrow> string" where
  \<comment> \<open>\<open>Path.stem\<close>: the name without its last suffix; a leading or a trailing dot
      starts no suffix.\<close>
  "stem name =
     (case rfind (CHR ''.'') name of
        None \<Rightarrow> name
      | Some i \<Rightarrow> if 0 < i \<and> i + 1 < length name then take i name else name)"

section \<open>The collection behind the vector store\<close>

text \<open>
  The ChromaDB collection is an external library. The vector store is modelled over any
  collection: a state of type \<open>'s\<close> and four operations, each of which may raise and
  may change the state.
\<close>

type_synonym metadata = "(string \<times> string) list"

datatype where_doc = Eq string string | Ne string string | And "where_doc list"

record 's backend =
  coll_upsert :: "string list \<Rightarrow> string list \<Rightarrow> metadata list \<Rightarrow> 's \<Rightarrow> (error + unit) \<times> 's"
  coll_query :: "string list \<Rightarrow> int \<Rightarrow> where_doc option \<Rightarrow> 's
                   \<Rightarrow> (error + string list list option) \<times> 's"
  coll_delete :: "where_doc \<Rightarrow> 's \<Rightarrow> (error + unit) \<times> 's"
  coll_count :: "'s \<Rightarrow> (error + nat) \<times> 's"

section \<open>VectorStore\<close>

definition chunk_id :: "string \<Rightarrow> nat \<Rightarrow> string" where
  \<comment> \<open>the f-string \<open>{source}::{i}\<close>\<close>
  "chunk_id src i = src @ ''::'' @ str_nat i"

definition chunk_meta :: "string \<Rightarrow> string \<Rightarrow> metadata" where
  \<comment> \<open>the dict with the keys \<open>source\<close> and \<open>type\<close>\<close>
  "chunk_meta src doc_type = [(''source'', src), (''type'', doc_type)]"

definition upsert_file ::
  "'s backend \<Rightarrow> directory \<Rightarrow> string \<Rightarrow> string \<Rightarrow> 's \<Rightarrow> (error + nat) \<times> 's" where
  "upsert_file B d file_path doc_type c =
     (if \<not> path_exists d file_path then (Inr 0, c)
      else (case read_text d file_path of
        Inl e \<Rightarrow> (Inl e, c)
      | Inr txt \<Rightarrow>
          let chunks = split_paragraphs txt in
          if chunks = [] then (Inr 0, c)
          else
            let src = stem file_path;
                ids = map (chunk_id src) [0..<length chunks];
                metadatas = map (\<lambda>_. chunk_meta src doc_type) chunks
            in (case coll_upsert B ids chunks metadatas c of
                 (Inl e, c') \<Rightarrow> (Inl e, c')
               | (Inr u, c') \<Rightarrow> (Inr (length chunks), c'))))"

definition search ::
  "'s backend \<Rightarrow> string \<Rightarrow> int \<Rightarrow> where_doc option \<Rightarrow> 's \<Rightarrow> (error + string list) \<times> 's" where
  \<comment> \<open>\<open>if where:\<close> passes the filter on only when there is one; the \<open>try\<close> covers the
      query alone.\<close>
  "search B query n_results wh c =
     (case coll_query B [query] n_results wh c of
        (Inl e, c') \<Rightarrow> (Inr [], c')
      | (Inr docs, c') \<Rightarrow>
          (case docs of
             None \<Rightarrow> (Inr [], c')
           | Some [] \<Rightarrow> (Inr [], c')
           | Some (d0 # _) \<Rightarrow> if d0 \<noteq> [] then (Inr d0, c') else (Inr [], c')))"

definition delete_by_source :: "'s backend \<Rightarrow> string \<Rightarrow> 's \<Rightarrow> (error + unit) \<times> 's" where
  "delete_by_source B source_name c = coll_delete B (Eq ''source'' source_name) c"

definition count :: "'s backend \<Rightarrow> 's \<Rightarrow> (error + nat) \<times> 's" where
  "count B c = coll_count B c"

section \<open>MemoryStore\<close>

record clock =
  today_date :: string
  day_str :: "nat \<Rightarrow> string"

text \<open>
  \<open>today_date\<close> is what the helper \<open>today_date()\<close> returns and \<open>day_str i\<close> is
  \<open>(datetime.now().date() - timedelta(days=i)).strftime("%Y-%m-%d")\<close>; the clock does not
  move during one call. In \<open>vector\<close>, \<open>None\<close> is \<open>self._vector = None\<close> and \<open>Some c\<close> a
  vector store whose collection is in state \<open>c\<close>.
\<close>

record 's memory_store =
  memory_dir :: directory
  vector :: "'s option"

definition memory_file :: string where
  "memory_file = ''MEMORY.md''"

definition get_today_file :: "clock \<Rightarrow> string" where
  "get_today_file clk = today_date clk @ ''.md''"

definition read_today :: "clock \<Rightarrow> 's memory_store \<Rightarrow> (error + string) \<times> 's memory_store" where
  "read_today clk st =
     (let today_file = get_today_file clk
      in if path_exists (memory_dir st) today_file
         then (read_text (memory_dir st) today_file, st)
         else (Inr [], st))"

definition append_today ::
  "'s backend \<Rightarrow> clock \<Rightarrow> string \<Rightarrow> 's memory_store \<Rightarrow> (error + unit) \<times> 's memory_store" where
  "append_today B clk content st =
     (let today_file = get_today_file clk;
          new_content =
            (if path_exists (memory_dir st) today_file
             then (case read_text (memory_dir st) today_file of
                     Inl e \<Rightarrow> Inl e
                   | Inr existing \<Rightarrow> Inr (existing @ ''\<newline>'' @ content))
             else Inr (''# '' @ today_date clk @ ''\<newline>\<newline>'' @ content))
      in case new_content of
           Inl e \<Rightarrow> (Inl e, st)
         | Inr content' \<Rightarrow>
             (case write_text (memory_dir st) today_file content' of
                Inl e \<Rightarrow> (Inl e, st)
              | Inr d' \<Rightarrow>
                  (case vector st of
                     None \<Rightarrow> (Inr (), st\<lparr>memory_dir := d'\<rparr>)
                   | Some c \<Rightarrow>
                       (case upsert_file B d' today_file ''daily'' c of
                          (Inl e, c') \<Rightarrow> (Inr (), st\<lparr>memory_dir := d', vector := Some c'\<rparr>)
                        | (Inr n, c') \<Rightarrow> (Inr (), st\<lparr>memory_dir := d', vector := Some c'\<rparr>)))))"

definition read_long_term :: "'s memory_store \<Rightarrow> (error + string) \<times> 's memory_store" where
  "read_long_term st =
     (if path_exists (memory_dir st) memory_file
      then (read_text (memory_dir st) memory_file, st)
      else (Inr [], st))"

definition write_long_term ::
  "'s backend \<Rightarrow> string \<Rightarrow> 's memory_store \<Rightarrow> (error + unit) \<times> 's memory_store" where
  "write_long_term B content st =
     (case write_text (memory_dir st) memory_file content of
        Inl e \<Rightarrow> (Inl e, st)
      | Inr d' \<Rightarrow>
          (case vector st of
             None \<Rightarrow> (Inr (), st\<lparr>memory_dir := d'\<rparr>)
           | Some c \<Rightarrow>
               (case upsert_file B d' memory_file ''long_term'' c of
                  (Inl e, c') \<Rightarrow> (Inr (), st\<lparr>memory_dir := d', vector := Some c'\<rparr>)
                | (Inr n, c') \<Rightarrow> (Inr (), st\<lparr>memory_dir := d', vector := Some c'\<rparr>))))"

fun recent_loop :: "directory \<Rightarrow> (nat \<Rightarrow> string) \<Rightarrow> nat list \<Rightarrow> string list \<Rightarrow> error + string list" where
  \<comment> \<open>the \<open>for i in range(days)\<close> loop of \<open>get_recent_memories\<close>\<close>
  "recent_loop d f [] memories = Inr memories"
| "recent_loop d f (i # js) memories =
     (let file_path = f i @ ''.md''
      in if path_exists d file_path
         then (case read_text d file_path of
                 Inl e \<Rightarrow> Inl e
               | Inr content \<Rightarrow> recent_loop d f js (memories @ [content]))
         else recent_loop d f js memories)"

definition get_recent_memories ::
  "clock \<Rightarrow> int \<Rightarrow> 's memory_store \<Rightarrow> (error + string) \<times> 's memory_store" where
  "get_recent_memories clk days st =
     (case recent_loop (memory_dir st) (day_str clk) [0..<nat days] [] of
        Inl e \<Rightarrow> (Inl e, st)
      | Inr memories \<Rightarrow> (Inr (join ''\<newline>\<newline>---\<newline>\<newline>'' memories), st))"

definition glob_match :: "string \<Rightarrow> bool" where
  \<comment> \<open>the pattern \<open>????-??-??.md\<close>\<close>
  "glob_match name =
     (length name = 13 \<and> name ! 4 = CHR ''-'' \<and> name ! 7 = CHR ''-'' \<and> drop 10 name = ''.md'')"

definition list_memory_files :: "'s memory_store \<Rightarrow> (error + string list) \<times> 's memory_store" where
  "list_memory_files st =
     (case memory_dir st of
        None \<Rightarrow> (Inr [], st)
      | Some fs \<Rightarrow> (Inr (rev (sort (filter glob_match (remdups (map fst fs))))), st))"

definition refresh_today :: "'s backend \<Rightarrow> clock \<Rightarrow> directory \<Rightarrow> 's \<Rightarrow> 's" where
  \<comment> \<open>the block shared by \<open>get_memory_context\<close> and \<open>search_memory\<close>: today's file, when
      it exists, is upserted and any exception is dropped.\<close>
  "refresh_today B clk d c =
     (let today_file = get_today_file clk
      in if path_exists d today_file
         then snd (upsert_file B d today_file ''daily'' c)
         else c)"

definition today_filter :: "clock \<Rightarrow> where_doc" where
  "today_filter clk = And [Eq ''type'' ''daily'', Ne ''source'' (today_date clk)]"

definition get_memory_context ::
  "'s backend \<Rightarrow> clock \<Rightarrow> string option \<Rightarrow> 's memory_store \<Rightarrow> (error + string) \<times> 's memory_store" where
  "get_memory_context B clk query st =
     (case read_long_term st of
        (Inl e, st1) \<Rightarrow> (Inl e, st1)
      | (Inr long_term, st1) \<Rightarrow>
     (case read_today clk st1 of
        (Inl e, st2) \<Rightarrow> (Inl e, st2)
      | (Inr today, st2) \<Rightarrow>
          let parts = (if long_term \<noteq> [] then [''## Long-term Memory\<newline>'' @ long_term] else [])
                    @ (if today \<noteq> [] then [''## Today'' @ [CHR 0x27] @ ''s Notes\<newline>'' @ today] else [])
          in (case (query, vector st2) of
               (Some q, Some c) \<Rightarrow>
                (if q = [] then (Inr (join ''\<newline>\<newline>'' parts), st2)
                 else
                   (case search B q 5 (Some (today_filter clk))
                           (refresh_today B clk (memory_dir st2) c) of
                      (Inl e, c') \<Rightarrow> (Inl e, st2\<lparr>vector := Some c'\<rparr>)
                    | (Inr results, c') \<Rightarrow>
                        let parts' = parts @
                              (if results \<noteq> []
                               then [''## Relevant Past Memories\<newline>''
                                     @ join ''\<newline>\<newline>---\<newline>\<newline>'' results]
                               else [])
                        in (Inr (join ''\<newline>\<newline>'' parts'), st2\<lparr>vector := Some c'\<rparr>)))
             | _ \<Rightarrow> (Inr (join ''\<newline>\<newline>'' parts), st2))))"

definition unavailable_message :: string where
  "unavailable_message =
     ''Semantic search unavailable (chromadb not installed). Use read_file to read memory files directly.''"

definition fragment_lines :: "string list \<Rightarrow> string list" where
  \<comment> \<open>the lines that \<open>search_memory\<close> builds from a non-empty result\<close>
  "fragment_lines results =
     (''Found '' @ str_nat (length results) @ '' relevant memory fragments:\<newline>'')
     # map (\<lambda>(i, chunk). ''--- Fragment '' @ str_nat i @ '' ---\<newline>'' @ chunk @ ''\<newline>'')
           (zip [1..<Suc (length results)] results)"

definition search_memory ::
  "'s backend \<Rightarrow> clock \<Rightarrow> string \<Rightarrow> int \<Rightarrow> 's memory_store \<Rightarrow> (error + string) \<times> 's memory_store" where
  "search_memory B clk query n_results st =
     (case vector st of
        None \<Rightarrow> (Inr unavailable_message, st)
      | Some c \<Rightarrow>
          (case search B query n_results None (refresh_today B clk (memory_dir st) c) of
             (Inl e, c') \<Rightarrow> (Inl e, st\<lparr>vector := Some c'\<rparr>)
           | (Inr results, c') \<Rightarrow>
               if results = [] then (Inr (''No memories found for: '' @ query), st\<lparr>vector := Some c'\<rparr>)
               else (Inr (join ''\<newline>'' (fragment_lines results)), st\<lparr>vector := Some c'\<rparr>)))"

section \<open>A collection that keeps one chunk per identity\<close>

type_synonym collection = "(string \<times> string \<times> metadata) list"

fun matches :: "metadata \<Rightarrow> where_doc \<Rightarrow> bool" where
  "matches m (Eq k v) = (map_of m k = Some v)"
| "matches m (Ne k v) = (map_of m k \<noteq> Some v)"
| "matches m (And ws) = list_all (matches m) ws"

definition selected :: "where_doc option \<Rightarrow> collection \<Rightarrow> collection" where
  "selected wh c = filter (\<lambda>e. case wh of None \<Rightarrow> True | Some w \<Rightarrow> matches (snd (snd e)) w) c"

definition chroma :: "(string \<Rightarrow> string \<Rightarrow> real) \<Rightarrow> collection backend" where
  \<comment> \<open>Modelled from the spec: the ChromaDB collection, which is an external library. A
      chunk is stored under its identity with its text and metadata; \<open>upsert\<close> replaces
      the chunk of an identity already present and adds the others; \<open>query\<close> keeps the
      chunks whose metadata satisfy the filter, orders them by the distance \<open>distance\<close> of
      their text to the query text, nearest first, and returns at most \<open>n_results\<close> texts;
      \<open>delete\<close> removes the chunks that satisfy the filter; \<open>count\<close> is the number of
      chunks. The distance itself (cosine over embeddings) is a parameter.\<close>
  "chroma distance =
     \<lparr> coll_upsert = (\<lambda>ids docs metas c. (Inr (), AList.updates ids (zip docs metas) c)),
       coll_query = (\<lambda>qs n wh c.
          (Inr (Some (map (\<lambda>q. take (nat n)
                  (map (\<lambda>e. fst (snd e)) (sort_key (\<lambda>e. distance q (fst (snd e))) (selected wh c)))) qs)), c)),
       coll_delete = (\<lambda>w c. (Inr (), filter (\<lambda>e. \<not> matches (snd (snd e)) w) c)),
       coll_count = (\<lambda>c. (Inr (length c), c)) \<rparr>"


section \<open>Auxiliary definitions\<close>

definition dec_val :: "string \<Rightarrow> nat" where
  \<comment> \<open>the number that a decimal text denotes\<close>
  "dec_val s = foldl (\<lambda>n c. 10 * n + (of_char c - 48)) 0 s"

definition written :: "string \<Rightarrow> string \<Rightarrow> string list \<Rightarrow> collection \<Rightarrow> collection" where
  \<comment> \<open>the collection after the chunks of one file have been upserted\<close>
  "written src ty chunks c =
     AList.updates (map (chunk_id src) [0..<length chunks])
       (zip chunks (map (\<lambda>_. chunk_meta src ty) chunks)) c"

definition failing :: "unit backend" where
  \<comment> \<open>a collection on which every operation raises\<close>
  "failing =
     \<lparr> coll_upsert = (\<lambda>ids docs metas c. (Inl BackendError, c)),
       coll_query = (\<lambda>qs n wh c. (Inl BackendError, c)),
       coll_delete = (\<lambda>w c. (Inl BackendError, c)),
       coll_count = (\<lambda>c. (Inl BackendError, c)) \<rparr>"

definition by_length :: "string \<Rightarrow> string \<Rightarrow> real" where
  \<comment> \<open>a distance for the examples: shorter texts are nearer\<close>
  "by_length q doc = real (length doc)"

definition note_one :: string where
  "note_one = ''The first paragraph is long enough to be kept as one chunk.''"

definition note_two :: string where
  "note_two = ''The third paragraph is long enough as well, and it is kept.''"

definition ex_text :: string where
  "ex_text = ''  '' @ note_one @ ''  \<newline>\<newline>short\<newline>\<newline>\<newline>'' @ note_two @ ''\<newline>''"

definition ex_dir :: directory where
  "ex_dir = Some [(''2025-06-01.md'', ex_text)]"

definition ex_dir_short :: directory where
  \<comment> \<open>the same file after it has been cut down to its first paragraph\<close>
  "ex_dir_short = Some [(''2025-06-01.md'', note_one)]"

definition ex_clock :: clock where
  "ex_clock = \<lparr> today_date = ''2025-06-02'',
                 day_str = (\<lambda>i. if i = 0 then ''2025-06-02''
                                else if i = 1 then ''2025-06-01'' else ''2025-05-31'') \<rparr>"

definition ex_store :: "collection memory_store" where
  "ex_store = \<lparr> memory_dir = Some [(''2025-06-02.md'', ''# 2025-06-02\<newline>\<newline>hello''),
                                      (''MEMORY.md'', ''facts''),
                                      (''2025-06-01.md'', ex_text)],
                 vector = Some [] \<rparr>"

definition down_store :: "unit memory_store" where
  \<comment> \<open>an empty memory directory and a vector store whose collection always raises\<close>
  "down_store = \<lparr> memory_dir = Some [], vector = Some () \<rparr>"

definition cr_note :: string where
  "cr_note = ''a'' @ [CHR 0x0D] @ ''b''"

definition ex_coll :: collection where
  "ex_coll =
     [(''2025-06-01::0'', ''an older note'', [(''source'', ''2025-06-01''), (''type'', ''daily'')]),
      (''2025-06-02::0'', ''today'', [(''source'', ''2025-06-02''), (''type'', ''daily'')]),
      (''MEMORY::0'', ''fact'', [(''source'', ''MEMORY''), (''type'', ''long_term'')])]"

definition no_index_store :: "unit memory_store" where
  "no_index_store = \<lparr> memory_dir = Some [], vector = None \<rparr>"

definition indexed_store :: "collection memory_store" where
  "indexed_store = \<lparr> memory_dir = Some [], vector = Some ex_coll \<rparr>"

section \<open>Facts about the string functions\<close>

lemma str_split_not_Nil: "str_split sep s \<noteq> []"
  by (induction sep s rule: str_split.induct) (auto split: list.splits)

lemma join_Cons: "ps \<noteq> [] \<Longrightarrow> join sep (p # ps) = p @ sep @ join sep ps"
  by (cases ps) auto

lemma join_str_split: "join sep (str_split sep s) = s"
proof (induction sep s rule: str_split.induct)
  case (1 sep)
  then show ?case by simp
next
  case (2 sep c cs)
  show ?case
  proof (cases "sep \<noteq> [] \<and> prefix sep (c # cs)")
    case True
    let ?r = "drop (length sep) (c # cs)"
    have cut: "str_split sep (c # cs) = [] # str_split sep ?r"
      using True by simp
    have whole: "sep @ ?r = c # cs"
      using True by (metis append_take_drop_id prefix_def append_eq_conv_conj)
    have "join sep (str_split sep ?r) = ?r"
      using True 2 by simp
    then have "join sep (str_split sep (c # cs)) = sep @ ?r"
      unfolding cut by (simp only: join_Cons[OF str_split_not_Nil] append_Nil)
    then show ?thesis using whole by simp
  next
    case False
    obtain p ps where p: "str_split sep cs = p # ps"
      using str_split_not_Nil[of sep cs] by (cases "str_split sep cs") auto
    with False 2 show ?thesis
      by (cases ps) auto
  qed
qed

lemma hd_str_split_prefix:
  assumes "str_split sep s = p # ps"
  shows "prefix p s"
proof -
  have "join sep (p # ps) = s"
    using join_str_split[of sep s] assms by simp
  then show ?thesis by (cases ps) (auto simp: prefix_def)
qed

lemma str_split_no_sep:
  "sep \<noteq> [] \<Longrightarrow> p \<in> set (str_split sep s) \<Longrightarrow> \<not> sublist sep p"
proof (induction sep s arbitrary: p rule: str_split.induct)
  case (1 sep)
  then show ?case by simp
next
  case (2 sep c cs)
  show ?case
  proof (cases "prefix sep (c # cs)")
    case True
    with "2.prems" "2.IH"(1) show ?thesis by auto
  next
    case False
    obtain q qs where q: "str_split sep cs = q # qs"
      using str_split_not_Nil[of sep cs] by (cases "str_split sep cs") auto
    from False q "2.prems" have "p = c # q \<or> p \<in> set qs" by simp
    then show ?thesis
    proof
      assume pc: "p = c # q"
      have nq: "\<not> sublist sep q"
        using "2.IH"(2)[of q] False q "2.prems"(1) by simp
      have "prefix q cs" using hd_str_split_prefix[OF q] .
      then have "prefix (c # q) (c # cs)" by simp
      then have "\<not> prefix sep (c # q)"
        using False prefix_order.trans by blast
      with nq show ?thesis unfolding pc by (simp add: sublist_Cons_right)
    next
      assume "p \<in> set qs"
      then show ?thesis using "2.IH"(2)[of p] False q "2.prems"(1) by simp
    qed
  qed
qed

lemma lstrip_decomp: "\<exists>a. s = a @ lstrip s \<and> list_all isspace a"
proof -
  have "s = takeWhile isspace s @ lstrip s"
    by (simp add: lstrip_def)
  moreover have "list_all isspace (takeWhile isspace s)"
    by (simp add: list_all_iff) (meson set_takeWhileD)
  ultimately show ?thesis by blast
qed

lemma rstrip_decomp: "\<exists>b. s = rstrip s @ b \<and> list_all isspace b"
proof -
  from lstrip_decomp[of "rev s"] obtain a where
    a: "rev s = a @ lstrip (rev s)" "list_all isspace a" by blast
  have "s = rev (lstrip (rev s)) @ rev a"
    using arg_cong[OF a(1), of rev] by simp
  moreover have "list_all isspace (rev a)"
    using a(2) by (simp add: list_all_iff)
  ultimately show ?thesis unfolding rstrip_def lstrip_def by blast
qed

lemma strip_decomp: "\<exists>a b. s = a @ strip s @ b \<and> list_all isspace a \<and> list_all isspace b"
proof -
  from lstrip_decomp[of s] obtain a where a: "s = a @ lstrip s" "list_all isspace a" by blast
  from rstrip_decomp[of "lstrip s"] obtain b where
    b: "lstrip s = rstrip (lstrip s) @ b" "list_all isspace b" by blast
  have "s = a @ strip s @ b"
    unfolding strip_def using a(1) b(1) by simp
  with a(2) b(2) show ?thesis by blast
qed

lemma lstrip_hd: "lstrip s \<noteq> [] \<Longrightarrow> \<not> isspace (hd (lstrip s))"
  unfolding lstrip_def by (rule hd_dropWhile)

lemma rstrip_last: "rstrip s \<noteq> [] \<Longrightarrow> \<not> isspace (last (rstrip s))"
  unfolding rstrip_def using hd_dropWhile[of isspace "rev s"] by (simp add: last_rev)

lemma rstrip_hd: "rstrip s \<noteq> [] \<Longrightarrow> hd (rstrip s) = hd s"
proof -
  assume ne: "rstrip s \<noteq> []"
  from rstrip_decomp[of s] obtain b where "s = rstrip s @ b" by blast
  then have "hd s = hd (rstrip s @ b)" by simp
  with ne show ?thesis by simp
qed

lemma strip_ends:
  assumes "strip s \<noteq> []"
  shows "\<not> isspace (hd (strip s)) \<and> \<not> isspace (last (strip s))"
proof -
  have ne: "lstrip s \<noteq> []"
    using assms unfolding strip_def rstrip_def by auto
  have "hd (strip s) = hd (lstrip s)"
    using assms rstrip_hd[of "lstrip s"] unfolding strip_def by simp
  with lstrip_hd[OF ne] rstrip_last[of "lstrip s"] assms show ?thesis
    unfolding strip_def by simp
qed

lemma lstrip_id: "s = [] \<or> \<not> isspace (hd s) \<Longrightarrow> lstrip s = s"
  unfolding lstrip_def by (cases s) auto

lemma rstrip_id: "s = [] \<or> \<not> isspace (last s) \<Longrightarrow> rstrip s = s"
  unfolding rstrip_def by (cases "rev s") (auto simp: last_rev hd_rev)

lemma strip_strip: "strip (strip s) = strip s"
proof (cases "strip s = []")
  case True
  have "strip [] = []" by (simp add: strip_def lstrip_def rstrip_def)
  with True show ?thesis by simp
next
  case False
  from strip_ends[OF False] have "lstrip (strip s) = strip s" "rstrip (strip s) = strip s"
    by (simp_all add: lstrip_id rstrip_id)
  then show ?thesis by (simp add: strip_def[of "strip s"])
qed

lemma split_paragraphs_filter_map:
  "split_paragraphs t =
     filter (\<lambda>c. 50 \<le> length c) (map strip (str_split ''\<newline>\<newline>'' t))"
  unfolding split_paragraphs_def Let_def MIN_CHUNK_LENGTH_def
  by (simp add: filter_map comp_def)

section \<open>Facts about chunk identities and the collection\<close>

lemma dec_val_snoc: "dec_val (s @ [c]) = 10 * dec_val s + (of_char c - 48)"
  by (simp add: dec_val_def)

lemma digit_val: "d < 10 \<Longrightarrow> of_char (digit_char d) - 48 = d"
  by (simp add: digit_char_def)

lemma dec_val_str_nat: "dec_val (str_nat n) = n"
proof (induction n rule: str_nat.induct)
  case (1 n)
  show ?case
  proof (cases "n < 10")
    case True
    then show ?thesis
      by (subst str_nat.simps) (simp add: dec_val_def digit_val)
  next
    case False
    then have "dec_val (str_nat n) = 10 * dec_val (str_nat (n div 10)) + n mod 10"
      by (subst str_nat.simps) (simp add: dec_val_snoc digit_val)
    with False 1 show ?thesis by simp
  qed
qed

lemma str_nat_inj: "str_nat m = str_nat n \<Longrightarrow> m = n"
  by (metis dec_val_str_nat)

lemma chunk_id_inj: "chunk_id src i = chunk_id src j \<Longrightarrow> i = j"
  by (simp add: chunk_id_def str_nat_inj)

lemma distinct_chunk_ids: "distinct (map (chunk_id src) [0..<k])"
  by (auto simp: distinct_map inj_on_def dest: chunk_id_inj)

lemma map_of_updates_notin:
  "k \<notin> set ks \<Longrightarrow> map_of (AList.updates ks vs al) k = map_of al k"
  by (simp add: updates_conv')

lemma updates_idem:
  "distinct ks \<Longrightarrow> AList.updates ks vs (AList.updates ks vs al) = AList.updates ks vs al"
proof (induction ks arbitrary: vs al)
  case Nil
  then show ?case by simp
next
  case (Cons k ks)
  show ?case
  proof (cases vs)
    case Nil
    then show ?thesis by simp
  next
    case (Cons v vs')
    have "map_of (AList.updates ks vs' (AList.update k v al)) k = Some v"
      using Cons.prems by (simp add: update_conv')
    then have "AList.update k v (AList.updates ks vs' (AList.update k v al))
               = AList.updates ks vs' (AList.update k v al)"
      by (rule update_triv)
    with Cons.IH[of vs' "AList.update k v al"] Cons.prems show ?thesis
      unfolding Cons by simp
  qed
qed

lemma length_update:
  "length (AList.update k v al) = (if k \<in> fst ` set al then length al else Suc (length al))"
  by (induction al) auto

lemma keys_updates:
  "length ks = length vs \<Longrightarrow> fst ` set (AList.updates ks vs al) = set ks \<union> fst ` set al"
proof (induction ks arbitrary: vs al)
  case Nil
  then show ?case by simp
next
  case (Cons k ks)
  then obtain v vs' where vs: "vs = v # vs'" by (cases vs) auto
  with Cons show ?case by (auto simp: dom_update)
qed

lemma length_updates:
  "length ks = length vs \<Longrightarrow>
   length (AList.updates ks vs al) = length al + card (set ks - fst ` set al)"
proof (induction ks arbitrary: vs al)
  case Nil
  then show ?case by simp
next
  case (Cons k ks)
  then obtain v vs' where vs: "vs = v # vs'" by (cases vs) auto
  have len: "length ks = length vs'" using Cons.prems vs by simp
  have step: "length (AList.updates (k # ks) vs al)
              = length (AList.update k v al) + card (set ks - fst ` set (AList.update k v al))"
    unfolding vs using Cons.IH[OF len, of "AList.update k v al"] by simp
  show ?case
  proof (cases "k \<in> fst ` set al")
    case True
    then have "set ks - fst ` set (AList.update k v al) = set (k # ks) - fst ` set al"
      by (auto simp: dom_update)
    with step True show ?thesis by (simp add: length_update)
  next
    case False
    have fin: "finite (set ks - fst ` set (AList.update k v al))" by simp
    have "set (k # ks) - fst ` set al = insert k (set ks - fst ` set (AList.update k v al))"
      using False by (auto simp: dom_update)
    moreover have "k \<notin> set ks - fst ` set (AList.update k v al)"
      by (simp add: dom_update)
    ultimately have "card (set (k # ks) - fst ` set al)
                     = Suc (card (set ks - fst ` set (AList.update k v al)))"
      using fin by simp
    with step False show ?thesis by (simp add: length_update)
  qed
qed

lemma map_of_updates_nth:
  "distinct ks \<Longrightarrow> length ks = length vs \<Longrightarrow> i < length ks
   \<Longrightarrow> map_of (AList.updates ks vs al) (ks ! i) = Some (vs ! i)"
proof (induction ks arbitrary: vs al i)
  case Nil
  then show ?case by simp
next
  case (Cons k ks)
  then obtain v vs' where vs: "vs = v # vs'" by (cases vs) auto
  show ?case
  proof (cases i)
    case 0
    with Cons.prems vs show ?thesis
      by (simp add: update_conv')
  next
    case (Suc j)
    with Cons.prems vs Cons.IH[of vs' j "AList.update k v al"] show ?thesis
      by simp
  qed
qed

lemma path_exists_read_text:
  "path_exists d p \<longleftrightarrow> (\<exists>t. read_text d p = Inr t)"
  by (auto simp: path_exists_def read_text_def split: option.splits)

lemma read_text_missing:
  "\<not> path_exists d p \<Longrightarrow> read_text d p = Inl FileNotFoundError"
  by (auto simp: path_exists_def read_text_def split: option.splits)

lemma upsert_file_missing:
  "\<not> path_exists d p \<Longrightarrow> upsert_file B d p ty c = (Inr 0, c)"
  by (simp add: upsert_file_def)

lemma upsert_file_no_chunks:
  "read_text d p = Inr t \<Longrightarrow> split_paragraphs t = [] \<Longrightarrow> upsert_file B d p ty c = (Inr 0, c)"
  by (simp add: upsert_file_def Let_def)

lemma upsert_file_call:
  assumes "read_text d p = Inr t" "split_paragraphs t \<noteq> []"
  shows "upsert_file B d p ty c =
           (case coll_upsert B (map (chunk_id (stem p)) [0..<length (split_paragraphs t)])
                   (split_paragraphs t)
                   (map (\<lambda>_. chunk_meta (stem p) ty) (split_paragraphs t)) c of
              (Inl e, c') \<Rightarrow> (Inl e, c')
            | (Inr u, c') \<Rightarrow> (Inr (length (split_paragraphs t)), c'))"
  using assms path_exists_read_text[of d p] by (simp add: upsert_file_def Let_def)

lemma upsert_file_chroma:
  assumes "read_text d p = Inr t"
  shows "upsert_file (chroma distance) d p ty c
         = (Inr (length (split_paragraphs t)), written (stem p) ty (split_paragraphs t) c)"
proof (cases "split_paragraphs t = []")
  case True
  with assms show ?thesis
    by (simp add: upsert_file_no_chunks written_def)
next
  case False
  with assms show ?thesis
    by (simp add: upsert_file_call chroma_def written_def)
qed

lemma written_idem: "written src ty chunks (written src ty chunks c) = written src ty chunks c"
  unfolding written_def by (rule updates_idem) (rule distinct_chunk_ids)

lemma written_lookup:
  "i < length chunks \<Longrightarrow>
   map_of (written src ty chunks c) (chunk_id src i) = Some (chunks ! i, chunk_meta src ty)"
  unfolding written_def
  using map_of_updates_nth[of "map (chunk_id src) [0..<length chunks]"
          "zip chunks (map (\<lambda>_. chunk_meta src ty) chunks)" i c]
  by (simp add: distinct_chunk_ids)

lemma written_other:
  "key \<notin> chunk_id src ` {..<length chunks} \<Longrightarrow>
   map_of (written src ty chunks c) key = map_of c key"
  unfolding written_def
  by (rule map_of_updates_notin) (auto simp: lessThan_atLeast0)

lemma written_keys:
  "fst ` set (written src ty chunks c) = fst ` set c \<union> chunk_id src ` {..<length chunks}"
  unfolding written_def
  by (subst keys_updates) (auto simp: lessThan_atLeast0)

lemma written_length:
  "length (written src ty chunks c)
   = length c + card (chunk_id src ` {..<length chunks} - fst ` set c)"
  unfolding written_def
  by (subst length_updates) (auto simp: lessThan_atLeast0)

lemma count_chroma: "count (chroma distance) c = (Inr (length c), c)"
  by (simp add: count_def chroma_def)


section \<open>Properties of the chunker and of upsert\<close>

text \<open>
  C3. The chunker returns the paragraphs that blank lines separate, each stripped of
  surrounding whitespace, keeping those whose stripped length is at least 50, in the
  order of the document. The paragraphs joined by the separator give the text back and
  none contains the separator; stripping removes whitespace at the two ends only and
  leaves no whitespace there; every chunk returned is already stripped and at least 50
  long; the empty text and a text whose paragraphs are all short give no chunk.
\<close>

theorem split_paragraphs_chunker:
  "split_paragraphs t
     = filter (\<lambda>c. 50 \<le> length c) (map strip (str_split ''\<newline>\<newline>'' t))
   \<and> join ''\<newline>\<newline>'' (str_split ''\<newline>\<newline>'' t) = t
   \<and> (\<forall>p \<in> set (str_split ''\<newline>\<newline>'' t). \<not> sublist ''\<newline>\<newline>'' p)
   \<and> (\<forall>p. \<exists>a b. p = a @ strip p @ b \<and> list_all isspace a \<and> list_all isspace b
          \<and> (strip p \<noteq> [] \<longrightarrow> \<not> isspace (hd (strip p)) \<and> \<not> isspace (last (strip p))))
   \<and> (\<forall>c \<in> set (split_paragraphs t). strip c = c \<and> 50 \<le> length c)
   \<and> split_paragraphs [] = []
   \<and> ((\<forall>p \<in> set (str_split ''\<newline>\<newline>'' t). length (strip p) < 50)
        \<longrightarrow> split_paragraphs t = [])"
proof (intro conjI)
  show "split_paragraphs t
     = filter (\<lambda>c. 50 \<le> length c) (map strip (str_split ''\<newline>\<newline>'' t))"
    by (rule split_paragraphs_filter_map)
  show "join ''\<newline>\<newline>'' (str_split ''\<newline>\<newline>'' t) = t"
    by (rule join_str_split)
  show "\<forall>p \<in> set (str_split ''\<newline>\<newline>'' t). \<not> sublist ''\<newline>\<newline>'' p"
    using str_split_no_sep[of "''\<newline>\<newline>''" _ t] by blast
  show "\<forall>p. \<exists>a b. p = a @ strip p @ b \<and> list_all isspace a \<and> list_all isspace b
          \<and> (strip p \<noteq> [] \<longrightarrow> \<not> isspace (hd (strip p)) \<and> \<not> isspace (last (strip p)))"
    using strip_decomp strip_ends by blast
  show "\<forall>c \<in> set (split_paragraphs t). strip c = c \<and> 50 \<le> length c"
    unfolding split_paragraphs_filter_map by (auto simp: strip_strip)
  show "split_paragraphs [] = []"
    by (simp add: split_paragraphs_filter_map strip_def lstrip_def rstrip_def)
  show "(\<forall>p \<in> set (str_split ''\<newline>\<newline>'' t). length (strip p) < 50)
        \<longrightarrow> split_paragraphs t = []"
    unfolding split_paragraphs_filter_map by (auto simp: filter_empty_conv)
qed

theorem split_paragraphs_chunker_witness:
  "split_paragraphs ex_text = [note_one, note_two]
   \<and> strip note_two = note_two \<and> 50 \<le> length note_two
   \<and> str_split ''\<newline>\<newline>'' ''short\<newline>\<newline>also short'' = [''short'', ''also short'']
   \<and> length (strip ''short'') < 50 \<and> length (strip ''also short'') < 50
   \<and> split_paragraphs ''short\<newline>\<newline>also short'' = []
   \<and> strip ''  ab  '' \<noteq> []
   \<and> \<not> isspace (hd (strip ''  ab  ''))"
proof -
  have chunks: "split_paragraphs ex_text = [note_one, note_two]"
    by code_simp
  have pieces: "str_split ''\<newline>\<newline>'' ''short\<newline>\<newline>also short'' = [''short'', ''also short'']"
    by code_simp
  have len: "length (strip ''short'') < 50" "length (strip ''also short'') < 50"
    by code_simp+
  have ne: "strip ''  ab  '' \<noteq> []"
    by code_simp
  note T = split_paragraphs_chunker
  from T[of ex_text] have "\<forall>c \<in> set (split_paragraphs ex_text). strip c = c \<and> 50 \<le> length c"
    by (elim conjE)
  then have kept: "strip note_two = note_two \<and> 50 \<le> length note_two"
    unfolding chunks by simp
  have short: "\<forall>p \<in> set (str_split ''\<newline>\<newline>'' ''short\<newline>\<newline>also short''). length (strip p) < 50"
    unfolding pieces using len by simp
  from T[of "''short\<newline>\<newline>also short''"] short
  have none: "split_paragraphs ''short\<newline>\<newline>also short'' = []"
    by (elim conjE) (erule mp)
  from T[of "[]"] have "\<forall>p. \<exists>a b. p = a @ strip p @ b \<and> list_all isspace a \<and> list_all isspace b
          \<and> (strip p \<noteq> [] \<longrightarrow> \<not> isspace (hd (strip p)) \<and> \<not> isspace (last (strip p)))"
    by (elim conjE)
  with ne have "\<not> isspace (hd (strip ''  ab  ''))"
    by blast
  with chunks kept pieces len none ne show ?thesis
    by (intro conjI) simp_all
qed


text \<open>
  C1. Upserting the same file twice is idempotent on the collection that keeps one chunk
  per identity: the second call returns what the first returned and leaves the
  collection exactly as the first call left it, and the chunk count after the second
  call equals the count after the first, also when the two calls name different
  document types.
\<close>

theorem upsert_file_idempotent:
  "upsert_file (chroma distance) d p ty (snd (upsert_file (chroma distance) d p ty c))
     = upsert_file (chroma distance) d p ty c
   \<and> fst (count (chroma distance)
        (snd (upsert_file (chroma distance) d p ty' (snd (upsert_file (chroma distance) d p ty c)))))
     = fst (count (chroma distance) (snd (upsert_file (chroma distance) d p ty c)))"
proof (cases "path_exists d p")
  case False
  then show ?thesis
    by (simp add: upsert_file_missing)
next
  case True
  then obtain t where t: "read_text d p = Inr t"
    using path_exists_read_text by blast
  let ?ch = "split_paragraphs t"
  have "chunk_id (stem p) ` {..<length ?ch} - fst ` set (written (stem p) ty ?ch c) = {}"
    by (auto simp: written_keys)
  then have "length (written (stem p) ty' ?ch (written (stem p) ty ?ch c))
             = length (written (stem p) ty ?ch c)"
    by (simp add: written_length)
  then show ?thesis
    by (simp add: upsert_file_chroma[OF t] written_idem count_chroma)
qed

theorem upsert_file_idempotent_witness:
  "upsert_file (chroma by_length) ex_dir ''2025-06-01.md'' ''daily'' []
     = (Inr 2, [(''2025-06-01::0'', note_one, [(''source'', ''2025-06-01''), (''type'', ''daily'')]),
                (''2025-06-01::1'', note_two, [(''source'', ''2025-06-01''), (''type'', ''daily'')])])
   \<and> upsert_file (chroma by_length) ex_dir ''2025-06-01.md'' ''daily''
        (snd (upsert_file (chroma by_length) ex_dir ''2025-06-01.md'' ''daily'' []))
     = (Inr 2, [(''2025-06-01::0'', note_one, [(''source'', ''2025-06-01''), (''type'', ''daily'')]),
                (''2025-06-01::1'', note_two, [(''source'', ''2025-06-01''), (''type'', ''daily'')])])
   \<and> fst (count (chroma by_length)
        (snd (upsert_file (chroma by_length) ex_dir ''2025-06-01.md'' ''long_term''
               (snd (upsert_file (chroma by_length) ex_dir ''2025-06-01.md'' ''daily'' [])))))
     = Inr 2"
proof -
  have first: "upsert_file (chroma by_length) ex_dir ''2025-06-01.md'' ''daily'' []
     = (Inr 2, [(''2025-06-01::0'', note_one, [(''source'', ''2025-06-01''), (''type'', ''daily'')]),
                (''2025-06-01::1'', note_two, [(''source'', ''2025-06-01''), (''type'', ''daily'')])])"
    by code_simp
  have cnt: "fst (count (chroma by_length)
        (snd (upsert_file (chroma by_length) ex_dir ''2025-06-01.md'' ''daily'' []))) = Inr 2"
    unfolding first by (simp add: count_chroma)
  note T = upsert_file_idempotent[of by_length ex_dir "''2025-06-01.md''" "''daily''" "[]" "''long_term''"]
  from T first cnt show ?thesis by simp
qed

text \<open>
  C4. For an existing file, \<open>upsert_file\<close> runs the chunker over the text read. With no
  chunk it returns 0 and the collection is left as it was, whatever the collection. With
  \<open>k > 0\<close> chunks it makes one upsert call with the identities \<open>source::0\<close> to
  \<open>source::(k-1)\<close>, the chunks and the metadata of source and type, the source being the
  stem of the file name. On the collection that keeps one chunk per identity the call
  returns \<open>k\<close>, identity \<open>source::i\<close> then holds chunk \<open>i\<close> with that metadata, every other
  identity holds what it held, and the count grows by the identities that were new.
\<close>

theorem upsert_file_writes_chunks:
  assumes "read_text d p = Inr t"
  shows "(split_paragraphs t = [] \<longrightarrow> upsert_file B d p ty s = (Inr 0, s))
   \<and> (split_paragraphs t \<noteq> [] \<longrightarrow>
        upsert_file B d p ty s =
          (case coll_upsert B (map (chunk_id (stem p)) [0..<length (split_paragraphs t)])
                  (split_paragraphs t)
                  (map (\<lambda>_. chunk_meta (stem p) ty) (split_paragraphs t)) s of
             (Inl e, s') \<Rightarrow> (Inl e, s')
           | (Inr u, s') \<Rightarrow> (Inr (length (split_paragraphs t)), s')))
   \<and> fst (upsert_file (chroma distance) d p ty c) = Inr (length (split_paragraphs t))
   \<and> (\<forall>i < length (split_paragraphs t).
         map_of (snd (upsert_file (chroma distance) d p ty c)) (chunk_id (stem p) i)
         = Some (split_paragraphs t ! i, chunk_meta (stem p) ty))
   \<and> (\<forall>key. key \<notin> chunk_id (stem p) ` {..<length (split_paragraphs t)} \<longrightarrow>
         map_of (snd (upsert_file (chroma distance) d p ty c)) key = map_of c key)
   \<and> length (snd (upsert_file (chroma distance) d p ty c))
       = length c + card (chunk_id (stem p) ` {..<length (split_paragraphs t)} - fst ` set c)
   \<and> (\<forall>n. chunk_id (stem p) n = stem p @ ''::'' @ str_nat n)
   \<and> chunk_meta (stem p) ty = [(''source'', stem p), (''type'', ty)]"
proof -
  let ?c' = "written (stem p) ty (split_paragraphs t) c"
  have up: "upsert_file (chroma distance) d p ty c = (Inr (length (split_paragraphs t)), ?c')"
    by (rule upsert_file_chroma[OF assms])
  have a: "split_paragraphs t = [] \<longrightarrow> upsert_file B d p ty s = (Inr 0, s)"
    using upsert_file_no_chunks[OF assms, of B ty s] by (rule impI)
  have b: "split_paragraphs t \<noteq> [] \<longrightarrow>
        upsert_file B d p ty s =
          (case coll_upsert B (map (chunk_id (stem p)) [0..<length (split_paragraphs t)])
                  (split_paragraphs t)
                  (map (\<lambda>_. chunk_meta (stem p) ty) (split_paragraphs t)) s of
             (Inl e, s') \<Rightarrow> (Inl e, s')
           | (Inr u, s') \<Rightarrow> (Inr (length (split_paragraphs t)), s'))"
    using upsert_file_call[OF assms, of B ty s] by (rule impI)
  have c: "fst (upsert_file (chroma distance) d p ty c) = Inr (length (split_paragraphs t))"
    unfolding up by simp
  have d: "\<forall>i < length (split_paragraphs t).
         map_of (snd (upsert_file (chroma distance) d p ty c)) (chunk_id (stem p) i)
         = Some (split_paragraphs t ! i, chunk_meta (stem p) ty)"
    unfolding up snd_conv using written_lookup by blast
  have e: "\<forall>key. key \<notin> chunk_id (stem p) ` {..<length (split_paragraphs t)} \<longrightarrow>
         map_of (snd (upsert_file (chroma distance) d p ty c)) key = map_of c key"
    unfolding up snd_conv using written_other by blast
  have f: "length (snd (upsert_file (chroma distance) d p ty c))
       = length c + card (chunk_id (stem p) ` {..<length (split_paragraphs t)} - fst ` set c)"
    unfolding up snd_conv by (rule written_length)
  have g: "\<forall>n. chunk_id (stem p) n = stem p @ ''::'' @ str_nat n"
    by (simp add: chunk_id_def)
  have h: "chunk_meta (stem p) ty = [(''source'', stem p), (''type'', ty)]"
    by (simp add: chunk_meta_def)
  show ?thesis
    using a b c d e f g h by (intro conjI)
qed

theorem upsert_file_writes_chunks_witness:
  "read_text ex_dir ''2025-06-01.md'' = Inr (universal_newlines ex_text)
   \<and> split_paragraphs (universal_newlines ex_text) = [note_one, note_two]
   \<and> read_text ex_dir_short ''2025-06-01.md'' = Inr note_one
   \<and> upsert_file failing (Some [(''2025-06-01.md'', ''short'')]) ''2025-06-01.md'' ''daily'' () = (Inr 0, ())
   \<and> upsert_file failing ex_dir ''2025-06-01.md'' ''daily'' () = (Inl BackendError, ())
   \<and> fst (upsert_file (chroma by_length) ex_dir ''2025-06-01.md'' ''daily'' []) = Inr 2
   \<and> map_of (snd (upsert_file (chroma by_length) ex_dir ''2025-06-01.md'' ''daily'' []))
        ''2025-06-01::1''
      = Some (note_two, [(''source'', ''2025-06-01''), (''type'', ''daily'')])
   \<and> map_of (snd (upsert_file (chroma by_length) ex_dir ''2025-06-01.md'' ''daily'' []))
        ''2025-05-31::0'' = None"
proof -
  have r: "read_text ex_dir ''2025-06-01.md'' = Inr (universal_newlines ex_text)"
    by (simp add: read_text_def ex_dir_def)
  have ch: "split_paragraphs (universal_newlines ex_text) = [note_one, note_two]"
    by code_simp
  have r0: "read_text (Some [(''2025-06-01.md'', ''short'')]) ''2025-06-01.md'' = Inr ''short''"
    by code_simp
  have ch0: "split_paragraphs ''short'' = []"
    by code_simp
  have rs: "read_text ex_dir_short ''2025-06-01.md'' = Inr note_one"
    by code_simp
  have st: "stem ''2025-06-01.md'' = ''2025-06-01''"
    by code_simp
  have id1: "chunk_id ''2025-06-01'' 1 = ''2025-06-01::1''"
    by code_simp
  have other: "''2025-05-31::0'' \<notin> chunk_id ''2025-06-01'' ` {..<length [note_one, note_two]}"
    by (auto simp: chunk_id_def)
  note T0 = upsert_file_writes_chunks[where B = failing and ty = "''daily''" and s = "()"
      and distance = by_length and c = "[]", OF r0]
  from T0[THEN conjunct1] ch0
  have a: "upsert_file failing (Some [(''2025-06-01.md'', ''short'')])
             ''2025-06-01.md'' ''daily'' () = (Inr 0, ())"
    by (rule mp)
  note T = upsert_file_writes_chunks[where B = failing and ty = "''daily''" and s = "()"
      and distance = by_length and c = "[]", OF r]
  have ne: "split_paragraphs (universal_newlines ex_text) \<noteq> []"
    unfolding ch by simp
  from T[THEN conjunct2, THEN conjunct1] ne
  have "upsert_file failing ex_dir ''2025-06-01.md'' ''daily'' () =
          (case coll_upsert failing
                  (map (chunk_id (stem ''2025-06-01.md''))
                     [0..<length (split_paragraphs (universal_newlines ex_text))])
                  (split_paragraphs (universal_newlines ex_text))
                  (map (\<lambda>_. chunk_meta (stem ''2025-06-01.md'') ''daily'')
                     (split_paragraphs (universal_newlines ex_text))) () of
             (Inl e, s') \<Rightarrow> (Inl e, s')
           | (Inr u, s') \<Rightarrow> (Inr (length (split_paragraphs (universal_newlines ex_text))), s'))"
    by (rule mp)
  then have b: "upsert_file failing ex_dir ''2025-06-01.md'' ''daily'' () = (Inl BackendError, ())"
    by (simp add: failing_def)
  from T[THEN conjunct2, THEN conjunct2, THEN conjunct1]
  have c: "fst (upsert_file (chroma by_length) ex_dir ''2025-06-01.md'' ''daily'' []) = Inr 2"
    unfolding ch by simp
  from T[THEN conjunct2, THEN conjunct2, THEN conjunct2, THEN conjunct1]
  have "map_of (snd (upsert_file (chroma by_length) ex_dir ''2025-06-01.md'' ''daily'' []))
           (chunk_id (stem ''2025-06-01.md'') 1)
         = Some (split_paragraphs (universal_newlines ex_text) ! 1,
                 chunk_meta (stem ''2025-06-01.md'') ''daily'')"
    unfolding ch by simp
  then have d: "map_of (snd (upsert_file (chroma by_length) ex_dir ''2025-06-01.md'' ''daily'' []))
        ''2025-06-01::1''
      = Some (note_two, [(''source'', ''2025-06-01''), (''type'', ''daily'')])"
    unfolding st id1 ch by (simp add: chunk_meta_def)
  from T[THEN conjunct2, THEN conjunct2, THEN conjunct2, THEN conjunct2, THEN conjunct1]
  have "''2025-05-31::0'' \<notin> chunk_id (stem ''2025-06-01.md'') `
            {..<length (split_paragraphs (universal_newlines ex_text))} \<longrightarrow>
         map_of (snd (upsert_file (chroma by_length) ex_dir ''2025-06-01.md'' ''daily'' []))
           ''2025-05-31::0'' = map_of [] ''2025-05-31::0''"
    by (rule spec)
  then have e: "map_of (snd (upsert_file (chroma by_length) ex_dir ''2025-06-01.md'' ''daily'' []))
        ''2025-05-31::0'' = None"
    unfolding st ch using other by simp
  from r ch rs a b c d e show ?thesis by (intro conjI)
qed

text \<open>
  C9. A file is upserted with \<open>k1\<close> chunks and then, cut down, with \<open>k2 < k1\<close> chunks.
  On the collection that keeps one chunk per identity, the identities \<open>source::0\<close> to
  \<open>source::(k2-1)\<close> then hold the chunks of the new text, the identities
  \<open>source::k2\<close> to \<open>source::(k1-1)\<close> still hold the chunks of the old text, and the
  second upsert has removed nothing: the count is what it was after the first.
\<close>

theorem upsert_shorter_leaves_stale_chunks:
  assumes "read_text d_old p = Inr t_old" and "read_text d_new p = Inr t_new"
    and "length (split_paragraphs t_new) < length (split_paragraphs t_old)"
  shows "(\<forall>i < length (split_paragraphs t_new).
            map_of (snd (upsert_file (chroma distance) d_new p ty_new
                      (snd (upsert_file (chroma distance) d_old p ty_old c))))
              (chunk_id (stem p) i)
            = Some (split_paragraphs t_new ! i, chunk_meta (stem p) ty_new))
   \<and> (\<forall>i. length (split_paragraphs t_new) \<le> i \<and> i < length (split_paragraphs t_old) \<longrightarrow>
            map_of (snd (upsert_file (chroma distance) d_new p ty_new
                      (snd (upsert_file (chroma distance) d_old p ty_old c))))
              (chunk_id (stem p) i)
            = Some (split_paragraphs t_old ! i, chunk_meta (stem p) ty_old))
   \<and> length (snd (upsert_file (chroma distance) d_new p ty_new
                      (snd (upsert_file (chroma distance) d_old p ty_old c))))
       = length (snd (upsert_file (chroma distance) d_old p ty_old c))"
proof -
  let ?c1 = "written (stem p) ty_old (split_paragraphs t_old) c"
  let ?c2 = "written (stem p) ty_new (split_paragraphs t_new) ?c1"
  have c1: "snd (upsert_file (chroma distance) d_old p ty_old c) = ?c1"
    by (simp add: upsert_file_chroma[OF assms(1)])
  have c2: "snd (upsert_file (chroma distance) d_new p ty_new ?c1) = ?c2"
    by (simp add: upsert_file_chroma[OF assms(2)])
  have low: "\<forall>i < length (split_paragraphs t_new).
      map_of ?c2 (chunk_id (stem p) i) = Some (split_paragraphs t_new ! i, chunk_meta (stem p) ty_new)"
    using written_lookup by blast
  have high: "\<forall>i. length (split_paragraphs t_new) \<le> i \<and> i < length (split_paragraphs t_old) \<longrightarrow>
      map_of ?c2 (chunk_id (stem p) i) = Some (split_paragraphs t_old ! i, chunk_meta (stem p) ty_old)"
  proof (intro allI impI)
    fix i
    assume i: "length (split_paragraphs t_new) \<le> i \<and> i < length (split_paragraphs t_old)"
    have "chunk_id (stem p) i \<notin> chunk_id (stem p) ` {..<length (split_paragraphs t_new)}"
    proof
      assume "chunk_id (stem p) i \<in> chunk_id (stem p) ` {..<length (split_paragraphs t_new)}"
      then obtain j where j: "j < length (split_paragraphs t_new)"
        "chunk_id (stem p) i = chunk_id (stem p) j" by blast
      from chunk_id_inj[OF j(2)] j(1) i show False by simp
    qed
    then have "map_of ?c2 (chunk_id (stem p) i) = map_of ?c1 (chunk_id (stem p) i)"
      by (rule written_other)
    also have "\<dots> = Some (split_paragraphs t_old ! i, chunk_meta (stem p) ty_old)"
      using i written_lookup by blast
    finally show "map_of ?c2 (chunk_id (stem p) i)
                 = Some (split_paragraphs t_old ! i, chunk_meta (stem p) ty_old)" .
  qed
  have "chunk_id (stem p) ` {..<length (split_paragraphs t_new)} \<subseteq> fst ` set ?c1"
    using assms(3) unfolding written_keys by auto
  then have "chunk_id (stem p) ` {..<length (split_paragraphs t_new)} - fst ` set ?c1 = {}"
    by blast
  then have len: "length ?c2 = length ?c1"
    using written_length[of "stem p" ty_new "split_paragraphs t_new" ?c1] by simp
  show ?thesis
    unfolding c1 c2 using low high len by (intro conjI)
qed

theorem upsert_shorter_leaves_stale_chunks_witness:
  "read_text ex_dir ''2025-06-01.md'' = Inr (universal_newlines ex_text)
   \<and> read_text ex_dir_short ''2025-06-01.md'' = Inr note_one
   \<and> length (split_paragraphs note_one) < length (split_paragraphs (universal_newlines ex_text))
   \<and> map_of (snd (upsert_file (chroma by_length) ex_dir_short ''2025-06-01.md'' ''daily''
                (snd (upsert_file (chroma by_length) ex_dir ''2025-06-01.md'' ''daily'' []))))
        ''2025-06-01::1''
      = Some (note_two, [(''source'', ''2025-06-01''), (''type'', ''daily'')])
   \<and> map_of (snd (upsert_file (chroma by_length) ex_dir_short ''2025-06-01.md'' ''daily''
                (snd (upsert_file (chroma by_length) ex_dir ''2025-06-01.md'' ''daily'' []))))
        ''2025-06-01::0''
      = Some (note_one, [(''source'', ''2025-06-01''), (''type'', ''daily'')])"
proof -
  have r1: "read_text ex_dir ''2025-06-01.md'' = Inr (universal_newlines ex_text)"
    by (simp add: read_text_def ex_dir_def)
  have r2: "read_text ex_dir_short ''2025-06-01.md'' = Inr note_one"
    by code_simp
  have ch1: "split_paragraphs (universal_newlines ex_text) = [note_one, note_two]"
    by code_simp
  have ch2: "split_paragraphs note_one = [note_one]"
    by code_simp
  have lt: "length (split_paragraphs note_one) < length (split_paragraphs (universal_newlines ex_text))"
    unfolding ch1 ch2 by simp
  have st: "stem ''2025-06-01.md'' = ''2025-06-01''"
    by code_simp
  have id0: "chunk_id ''2025-06-01'' 0 = ''2025-06-01::0''"
    by code_simp
  have id1: "chunk_id ''2025-06-01'' 1 = ''2025-06-01::1''"
    by code_simp
  note T = upsert_shorter_leaves_stale_chunks[where distance = by_length and ty_old = "''daily''"
      and ty_new = "''daily''" and c = "[]", OF r1 r2 lt]
  from T have low: "\<forall>i < length [note_one].
            map_of (snd (upsert_file (chroma by_length) ex_dir_short ''2025-06-01.md'' ''daily''
                      (snd (upsert_file (chroma by_length) ex_dir ''2025-06-01.md'' ''daily'' []))))
              (chunk_id ''2025-06-01'' i)
            = Some ([note_one] ! i, chunk_meta ''2025-06-01'' ''daily'')"
    unfolding ch1 ch2 st by (elim conjE)
  from T have high: "\<forall>i. length [note_one] \<le> i \<and> i < length [note_one, note_two] \<longrightarrow>
            map_of (snd (upsert_file (chroma by_length) ex_dir_short ''2025-06-01.md'' ''daily''
                      (snd (upsert_file (chroma by_length) ex_dir ''2025-06-01.md'' ''daily'' []))))
              (chunk_id ''2025-06-01'' i)
            = Some ([note_one, note_two] ! i, chunk_meta ''2025-06-01'' ''daily'')"
    unfolding ch1 ch2 st by (elim conjE)
  from low have a: "map_of (snd (upsert_file (chroma by_length) ex_dir_short ''2025-06-01.md'' ''daily''
                (snd (upsert_file (chroma by_length) ex_dir ''2025-06-01.md'' ''daily'' []))))
        ''2025-06-01::0''
      = Some (note_one, [(''source'', ''2025-06-01''), (''type'', ''daily'')])"
    using id0 by (auto simp: chunk_meta_def)
  from high have b: "map_of (snd (upsert_file (chroma by_length) ex_dir_short ''2025-06-01.md'' ''daily''
                (snd (upsert_file (chroma by_length) ex_dir ''2025-06-01.md'' ''daily'' []))))
        ''2025-06-01::1''
      = Some (note_two, [(''source'', ''2025-06-01''), (''type'', ''daily'')])"
    using id1 by (auto simp: chunk_meta_def)
  from r1 r2 lt a b show ?thesis by (intro conjI)
qed

section \<open>Properties of the memory store and of search\<close>

lemma read_text_total:
  "path_exists d p \<Longrightarrow> \<exists>t. read_text d p = Inr t"
  using path_exists_read_text by blast

lemma read_today_returns: "\<exists>r. read_today clk st = (Inr r, st)"
  unfolding read_today_def Let_def
  using read_text_total[of "memory_dir st" "get_today_file clk"] by auto

lemma read_long_term_returns: "\<exists>r. read_long_term st = (Inr r, st)"
  unfolding read_long_term_def
  using read_text_total[of "memory_dir st" memory_file] by auto

lemma recent_loop_returns: "\<exists>ms. recent_loop d f js acc = Inr ms"
proof (induction js arbitrary: acc)
  case Nil
  then show ?case by simp
next
  case (Cons i js)
  show ?case
  proof (cases "path_exists d (f i @ ''.md'')")
    case True
    then obtain t where "read_text d (f i @ ''.md'') = Inr t"
      using read_text_total by blast
    with True Cons[of "acc @ [t]"] show ?thesis by (simp add: Let_def)
  next
    case False
    with Cons[of acc] show ?thesis by (simp add: Let_def)
  qed
qed

lemma get_recent_memories_returns: "\<exists>r. get_recent_memories clk days st = (Inr r, st)"
  unfolding get_recent_memories_def
  using recent_loop_returns[of "memory_dir st" "day_str clk" "[0..<nat days]" "[]"] by auto

lemma list_memory_files_returns: "\<exists>r. list_memory_files st = (Inr r, st)"
  unfolding list_memory_files_def by (cases "memory_dir st") auto

text \<open>
  C10. \<open>read_today\<close>, \<open>read_long_term\<close>, \<open>get_recent_memories\<close> and
  \<open>list_memory_files\<close> are read-only: for every state of the memory directory and of
  the index and for every argument, each returns a value and leaves both the files and
  the index exactly as they were.
\<close>

theorem reads_change_nothing:
  "(\<exists>r. read_today clk st = (Inr r, st))
   \<and> (\<exists>r. read_long_term st = (Inr r, st))
   \<and> (\<exists>r. get_recent_memories clk days st = (Inr r, st))
   \<and> (\<exists>r. list_memory_files st = (Inr r, st))"
  using read_today_returns read_long_term_returns get_recent_memories_returns
    list_memory_files_returns by (intro conjI)

theorem reads_change_nothing_witness:
  "read_today ex_clock ex_store = (Inr ''# 2025-06-02\<newline>\<newline>hello'', ex_store)
   \<and> read_long_term ex_store = (Inr ''facts'', ex_store)
   \<and> snd (get_recent_memories ex_clock 3 ex_store) = ex_store
   \<and> list_memory_files ex_store = (Inr [''2025-06-02.md'', ''2025-06-01.md''], ex_store)"
proof -
  note T = reads_change_nothing[of ex_clock ex_store 3]
  have a: "fst (read_today ex_clock ex_store) = Inr ''# 2025-06-02\<newline>\<newline>hello''"
    by code_simp
  have b: "fst (read_long_term ex_store) = Inr ''facts''"
    by code_simp
  have d: "fst (list_memory_files ex_store) = Inr [''2025-06-02.md'', ''2025-06-01.md'']"
    by code_simp
  from T a have a': "read_today ex_clock ex_store = (Inr ''# 2025-06-02\<newline>\<newline>hello'', ex_store)"
    by auto
  from T b have b': "read_long_term ex_store = (Inr ''facts'', ex_store)"
    by auto
  from T have c': "snd (get_recent_memories ex_clock 3 ex_store) = ex_store"
    by auto
  from T d have d': "list_memory_files ex_store = (Inr [''2025-06-02.md'', ''2025-06-01.md''], ex_store)"
    by auto
  from a' b' c' d' show ?thesis by (intro conjI)
qed

lemma universal_newlines_id: "CHR 0x0D \<notin> set s \<Longrightarrow> universal_newlines s = s"
  by (induction s rule: universal_newlines.induct) auto

lemma append_today_result:
  assumes "memory_dir st = Some fs"
  shows "fst (append_today B clk content st) = Inr ()
     \<and> memory_dir (snd (append_today B clk content st))
         = Some (AList.update (get_today_file clk)
              (case map_of fs (get_today_file clk) of
                 None \<Rightarrow> ''# '' @ today_date clk @ ''\<newline>\<newline>'' @ content
               | Some existing \<Rightarrow> universal_newlines existing @ ''\<newline>'' @ content) fs)"
proof (cases "map_of fs (get_today_file clk)")
  case None
  with assms show ?thesis
    by (auto simp: append_today_def Let_def path_exists_def write_text_def
          split: option.splits prod.splits sum.splits)
next
  case (Some existing)
  with assms show ?thesis
    by (auto simp: append_today_def Let_def path_exists_def read_text_def write_text_def
          split: option.splits prod.splits sum.splits)
qed

lemma write_long_term_result:
  assumes "memory_dir st = Some fs"
  shows "fst (write_long_term B content st) = Inr ()
     \<and> memory_dir (snd (write_long_term B content st)) = Some (AList.update memory_file content fs)"
  using assms
  by (auto simp: write_long_term_def write_text_def split: option.splits prod.splits sum.splits)

text \<open>
  C2. \<open>append_today\<close> and \<open>write_long_term\<close> never fail because indexing failed. For
  every collection, whatever its upsert does, and every content: when the memory
  directory exists both calls return normally, the file written by \<open>write_long_term\<close>
  holds the content, the file written by \<open>append_today\<close> ends with the content, and no
  other file changes. The outcome and the files are the same as with no index at all.
\<close>

theorem writes_survive_index_failure:
  assumes "memory_dir st = Some fs"
  shows "fst (append_today B clk content st) = Inr ()
   \<and> (\<exists>before. memory_dir (snd (append_today B clk content st))
                  = Some (AList.update (get_today_file clk) (before @ content) fs))
   \<and> fst (write_long_term B content st) = Inr ()
   \<and> memory_dir (snd (write_long_term B content st)) = Some (AList.update memory_file content fs)
   \<and> fst (append_today B clk content (st\<lparr>vector := None\<rparr>)) = fst (append_today B clk content st)
   \<and> memory_dir (snd (append_today B clk content (st\<lparr>vector := None\<rparr>)))
       = memory_dir (snd (append_today B clk content st))
   \<and> fst (write_long_term B content (st\<lparr>vector := None\<rparr>)) = fst (write_long_term B content st)
   \<and> memory_dir (snd (write_long_term B content (st\<lparr>vector := None\<rparr>)))
       = memory_dir (snd (write_long_term B content st))"
proof -
  have st': "memory_dir (st\<lparr>vector := None\<rparr>) = Some fs"
    using assms by simp
  note A = append_today_result[OF assms, of B clk content]
  note A' = append_today_result[OF st', of B clk content]
  note W = write_long_term_result[OF assms, of B content]
  note W' = write_long_term_result[OF st', of B content]
  have "\<exists>before. memory_dir (snd (append_today B clk content st))
                  = Some (AList.update (get_today_file clk) (before @ content) fs)"
  proof (cases "map_of fs (get_today_file clk)")
    case None
    with A have "memory_dir (snd (append_today B clk content st))
        = Some (AList.update (get_today_file clk)
                  ((''# '' @ today_date clk @ ''\<newline>\<newline>'') @ content) fs)"
      by simp
    then show ?thesis by blast
  next
    case (Some existing)
    with A have "memory_dir (snd (append_today B clk content st))
        = Some (AList.update (get_today_file clk)
                  ((universal_newlines existing @ ''\<newline>'') @ content) fs)"
      by simp
    then show ?thesis by blast
  qed
  then show ?thesis
    using A A' W W' by simp
qed

theorem writes_survive_index_failure_witness:
  "memory_dir down_store = Some []
   \<and> fst (upsert_file failing (Some [(''MEMORY.md'', note_one)]) ''MEMORY.md'' ''long_term'' ())
       = Inl BackendError
   \<and> write_long_term failing note_one down_store
       = (Inr (), \<lparr>memory_dir = Some [(''MEMORY.md'', note_one)], vector = Some ()\<rparr>)
   \<and> fst (upsert_file failing (Some [(''2025-06-02.md'', ''# 2025-06-02\<newline>\<newline>'' @ note_one)])
             ''2025-06-02.md'' ''daily'' ())
       = Inl BackendError
   \<and> fst (append_today failing ex_clock note_one down_store) = Inr ()
   \<and> memory_dir (snd (append_today failing ex_clock note_one down_store))
       = Some [(''2025-06-02.md'', ''# 2025-06-02\<newline>\<newline>'' @ note_one)]"
proof -
  have d: "memory_dir down_store = Some []"
    by (simp add: down_store_def)
  have up: "fst (upsert_file failing (Some [(''MEMORY.md'', note_one)]) ''MEMORY.md'' ''long_term'' ())
       = Inl BackendError"
    by code_simp
  have up2: "fst (upsert_file failing (Some [(''2025-06-02.md'', ''# 2025-06-02\<newline>\<newline>'' @ note_one)])
             ''2025-06-02.md'' ''daily'' ())
       = Inl BackendError"
    by code_simp
  have vec: "vector (snd (write_long_term failing note_one down_store)) = Some ()"
    by code_simp
  have upd: "AList.update memory_file note_one [] = [(''MEMORY.md'', note_one)]"
    by (simp add: memory_file_def)
  note T = writes_survive_index_failure[OF d, of failing ex_clock note_one]
  from T have r: "fst (write_long_term failing note_one down_store) = Inr ()"
    by (elim conjE)
  from T have "memory_dir (snd (write_long_term failing note_one down_store))
             = Some (AList.update memory_file note_one [])"
    by (elim conjE)
  then have dir: "memory_dir (snd (write_long_term failing note_one down_store))
             = Some [(''MEMORY.md'', note_one)]"
    unfolding upd .
  have w: "write_long_term failing note_one down_store
       = (Inr (), \<lparr>memory_dir = Some [(''MEMORY.md'', note_one)], vector = Some ()\<rparr>)"
    using r dir vec by (cases "write_long_term failing note_one down_store") auto
  from T have a: "fst (append_today failing ex_clock note_one down_store) = Inr ()"
    by (elim conjE)
  have b: "memory_dir (snd (append_today failing ex_clock note_one down_store))
       = Some [(''2025-06-02.md'', ''# 2025-06-02\<newline>\<newline>'' @ note_one)]"
    by code_simp
  from d up w up2 a b show ?thesis by (intro conjI)
qed

text \<open>
  C6, as stated, fails when the first content holds a carriage return: the second
  \<open>append_today\<close> reads the file back with universal newlines, so the carriage return is
  written back, and read, as a line feed. Here the first content is \<open>a\<close>, a carriage
  return, \<open>b\<close>; the second is \<open>c\<close>.
\<close>

theorem append_today_twice_carriage_return:
  "memory_dir (snd (append_today failing ex_clock ''c''
       (snd (append_today failing ex_clock cr_note \<lparr>memory_dir = Some [], vector = None\<rparr>))))
     \<noteq> Some [(''2025-06-02.md'', ''# 2025-06-02\<newline>\<newline>'' @ cr_note @ ''\<newline>'' @ ''c'')]
   \<and> fst (read_today ex_clock (snd (append_today failing ex_clock ''c''
       (snd (append_today failing ex_clock cr_note \<lparr>memory_dir = Some [], vector = None\<rparr>)))))
     \<noteq> Inr (''# 2025-06-02\<newline>\<newline>'' @ cr_note @ ''\<newline>'' @ ''c'')
   \<and> fst (read_today ex_clock (snd (append_today failing ex_clock ''c''
       (snd (append_today failing ex_clock cr_note \<lparr>memory_dir = Some [], vector = None\<rparr>)))))
     = Inr ''# 2025-06-02\<newline>\<newline>a\<newline>b\<newline>c''"
  by code_simp

text \<open>
  C6, amended. The memory directory exists and holds no file for today. Then, for every
  content \<open>c1\<close>, \<open>append_today c1\<close> returns normally and creates today's file holding the
  header line, a blank line and \<open>c1\<close>. For every \<open>c2\<close>, a second \<open>append_today c2\<close>
  returns normally and leaves that one file holding what reading the first file gives
  (its text with universal newlines applied), a line feed and \<open>c2\<close>; when neither the
  date string nor \<open>c1\<close> holds a carriage return this is header, \<open>c1\<close>, a line feed and
  \<open>c2\<close>. When \<open>c2\<close> holds no carriage return either, \<open>read_today\<close> returns exactly that
  text and changes nothing. The date string and the contents are strings of the model:
  their code points lie below 256, and UTF-8 encodes every one of them, so the write
  never fails to encode. A lone surrogate, which \<open>write_text\<close> cannot encode, is no
  string of the model and is outside this statement.
\<close>

theorem append_today_twice:
  assumes "memory_dir st = Some fs"
    and "map_of fs (get_today_file clk) = None"
  shows "fst (append_today B clk c1 st) = Inr ()
   \<and> memory_dir (snd (append_today B clk c1 st))
           = Some (AList.update (get_today_file clk) (''# '' @ today_date clk @ ''\<newline>\<newline>'' @ c1) fs)
   \<and> fst (append_today B clk c2 (snd (append_today B clk c1 st))) = Inr ()
   \<and> memory_dir (snd (append_today B clk c2 (snd (append_today B clk c1 st))))
           = Some (AList.update (get_today_file clk)
                    (universal_newlines (''# '' @ today_date clk @ ''\<newline>\<newline>'' @ c1)
                     @ ''\<newline>'' @ c2) fs)
   \<and> (CHR 0x0D \<notin> set (today_date clk) \<and> CHR 0x0D \<notin> set c1 \<longrightarrow>
        memory_dir (snd (append_today B clk c2 (snd (append_today B clk c1 st))))
           = Some (AList.update (get_today_file clk)
                    (''# '' @ today_date clk @ ''\<newline>\<newline>'' @ c1 @ ''\<newline>'' @ c2) fs))
   \<and> (CHR 0x0D \<notin> set (today_date clk) \<and> CHR 0x0D \<notin> set c1 \<and> CHR 0x0D \<notin> set c2 \<longrightarrow>
        read_today clk (snd (append_today B clk c2 (snd (append_today B clk c1 st))))
           = (Inr (''# '' @ today_date clk @ ''\<newline>\<newline>'' @ c1 @ ''\<newline>'' @ c2),
              snd (append_today B clk c2 (snd (append_today B clk c1 st)))))"
proof -
  let ?f = "get_today_file clk"
  let ?h = "''# '' @ today_date clk @ ''\<newline>\<newline>''"
  let ?st1 = "snd (append_today B clk c1 st)"
  let ?st2 = "snd (append_today B clk c2 ?st1)"
  have ok1: "fst (append_today B clk c1 st) = Inr ()"
    using append_today_result[OF assms(1), of B clk c1] by simp
  have one: "memory_dir ?st1 = Some (AList.update ?f (?h @ c1) fs)"
    using append_today_result[OF assms(1), of B clk c1] assms(2) by simp
  have look: "map_of (AList.update ?f (?h @ c1) fs) ?f = Some (?h @ c1)"
    by (simp add: update_conv')
  have ok2: "fst (append_today B clk c2 ?st1) = Inr ()"
    using append_today_result[OF one, of B clk c2] by simp
  have two: "memory_dir ?st2
             = Some (AList.update ?f (universal_newlines (?h @ c1) @ ''\<newline>'' @ c2) fs)"
    using append_today_result[OF one, of B clk c2] look by simp
  have plain: "CHR 0x0D \<notin> set (today_date clk) \<and> CHR 0x0D \<notin> set c1 \<longrightarrow>
        memory_dir ?st2 = Some (AList.update ?f (?h @ c1 @ ''\<newline>'' @ c2) fs)"
  proof
    assume "CHR 0x0D \<notin> set (today_date clk) \<and> CHR 0x0D \<notin> set c1"
    then have "CHR 0x0D \<notin> set (?h @ c1)"
      by auto
    then have "universal_newlines (?h @ c1) = ?h @ c1"
      by (rule universal_newlines_id)
    with two show "memory_dir ?st2 = Some (AList.update ?f (?h @ c1 @ ''\<newline>'' @ c2) fs)"
      by simp
  qed
  have reread: "CHR 0x0D \<notin> set (today_date clk) \<and> CHR 0x0D \<notin> set c1 \<and> CHR 0x0D \<notin> set c2 \<longrightarrow>
        read_today clk ?st2 = (Inr (?h @ c1 @ ''\<newline>'' @ c2), ?st2)"
  proof
    assume cr: "CHR 0x0D \<notin> set (today_date clk) \<and> CHR 0x0D \<notin> set c1 \<and> CHR 0x0D \<notin> set c2"
    with plain have dir: "memory_dir ?st2 = Some (AList.update ?f (?h @ c1 @ ''\<newline>'' @ c2) fs)"
      by blast
    from cr have "CHR 0x0D \<notin> set (?h @ c1 @ ''\<newline>'' @ c2)"
      by auto
    then have un: "universal_newlines (?h @ c1 @ ''\<newline>'' @ c2) = ?h @ c1 @ ''\<newline>'' @ c2"
      by (rule universal_newlines_id)
    show "read_today clk ?st2 = (Inr (?h @ c1 @ ''\<newline>'' @ c2), ?st2)"
      unfolding read_today_def Let_def path_exists_def read_text_def dir
      using un by (simp add: update_conv')
  qed
  from ok1 one ok2 two plain reread show ?thesis
    by (simp only: append_assoc simp_thms)
qed

theorem append_today_twice_witness:
  "memory_dir down_store = Some []
   \<and> map_of [] (get_today_file ex_clock) = (None :: string option)
   \<and> CHR 0x0D \<notin> set (today_date ex_clock) \<and> CHR 0x0D \<notin> set ''hello'' \<and> CHR 0x0D \<notin> set ''again''
   \<and> memory_dir (snd (append_today failing ex_clock ''hello'' down_store))
       = Some [(''2025-06-02.md'', ''# 2025-06-02\<newline>\<newline>hello'')]
   \<and> memory_dir (snd (append_today failing ex_clock ''again''
                       (snd (append_today failing ex_clock ''hello'' down_store))))
       = Some [(''2025-06-02.md'', ''# 2025-06-02\<newline>\<newline>hello\<newline>again'')]
   \<and> fst (read_today ex_clock (snd (append_today failing ex_clock ''again''
                       (snd (append_today failing ex_clock ''hello'' down_store)))))
       = Inr ''# 2025-06-02\<newline>\<newline>hello\<newline>again''
   \<and> memory_dir (snd (append_today failing ex_clock cr_note
                       (snd (append_today failing ex_clock ''hello'' down_store))))
       = Some [(''2025-06-02.md'', ''# 2025-06-02\<newline>\<newline>hello\<newline>'' @ cr_note)]
   \<and> memory_dir (snd (append_today failing ex_clock cr_note down_store))
       = Some [(''2025-06-02.md'', ''# 2025-06-02\<newline>\<newline>'' @ cr_note)]"
proof -
  have d: "memory_dir down_store = Some []"
    by (simp add: down_store_def)
  have n: "map_of [] (get_today_file ex_clock) = (None :: string option)"
    by simp
  have cr: "CHR 0x0D \<notin> set (today_date ex_clock)" "CHR 0x0D \<notin> set ''hello''"
    "CHR 0x0D \<notin> set ''again''"
    by (simp_all add: ex_clock_def)
  have f: "get_today_file ex_clock = ''2025-06-02.md''"
    by (simp add: get_today_file_def ex_clock_def)
  have t: "today_date ex_clock = ''2025-06-02''"
    by (simp add: ex_clock_def)
  note T = append_today_twice[OF d n, where B = failing and ?c1.0 = "''hello''" and ?c2.0 = "''again''"]
  note U = append_today_twice[OF d n, where B = failing and ?c1.0 = "''hello''" and ?c2.0 = cr_note]
  note V = append_today_twice[OF d n, where B = failing and ?c1.0 = cr_note and ?c2.0 = "''c''"]
  from T[THEN conjunct2, THEN conjunct1]
  have a: "memory_dir (snd (append_today failing ex_clock ''hello'' down_store))
       = Some [(''2025-06-02.md'', ''# 2025-06-02\<newline>\<newline>hello'')]"
    unfolding f t by simp
  from T[THEN conjunct2, THEN conjunct2, THEN conjunct2, THEN conjunct2, THEN conjunct1] cr
  have b: "memory_dir (snd (append_today failing ex_clock ''again''
                       (snd (append_today failing ex_clock ''hello'' down_store))))
       = Some [(''2025-06-02.md'', ''# 2025-06-02\<newline>\<newline>hello\<newline>again'')]"
    unfolding f t by simp
  from T[THEN conjunct2, THEN conjunct2, THEN conjunct2, THEN conjunct2, THEN conjunct2] cr
  have c: "fst (read_today ex_clock (snd (append_today failing ex_clock ''again''
                       (snd (append_today failing ex_clock ''hello'' down_store)))))
       = Inr ''# 2025-06-02\<newline>\<newline>hello\<newline>again''"
    unfolding f t by simp
  from U[THEN conjunct2, THEN conjunct2, THEN conjunct2, THEN conjunct2, THEN conjunct1] cr(1,2)
  have e: "memory_dir (snd (append_today failing ex_clock cr_note
                       (snd (append_today failing ex_clock ''hello'' down_store))))
       = Some [(''2025-06-02.md'', ''# 2025-06-02\<newline>\<newline>hello\<newline>'' @ cr_note)]"
    unfolding f t by simp
  from V[THEN conjunct2, THEN conjunct1]
  have g: "memory_dir (snd (append_today failing ex_clock cr_note down_store))
       = Some [(''2025-06-02.md'', ''# 2025-06-02\<newline>\<newline>'' @ cr_note)]"
    unfolding f t by simp
  from d n cr a b c e g show ?thesis by (intro conjI)
qed

lemma search_returns: "\<exists>r c'. search B q n wh c = (Inr r, c')"
  unfolding search_def
  by (auto split: prod.splits sum.splits option.splits list.splits)

lemma search_query_raises:
  "coll_query B [q] n wh c = (Inl e, c') \<Longrightarrow> search B q n wh c = (Inr [], c')"
  by (simp add: search_def)

lemma search_chroma:
  "search (chroma distance) q n wh cc
   = (Inr (take (nat n) (map (\<lambda>e. fst (snd e))
              (sort_key (\<lambda>e. distance q (fst (snd e))) (selected wh cc)))), cc)"
  by (simp add: search_def chroma_def)

lemma search_chroma_sorted:
  "sorted (map (distance q) (take k (map (\<lambda>e. fst (snd e))
              (sort_key (\<lambda>e. distance q (fst (snd e))) xs))))"
proof -
  have "map (distance q) (take k (map (\<lambda>e. fst (snd e))
              (sort_key (\<lambda>e. distance q (fst (snd e))) xs)))
        = take k (map (\<lambda>e. distance q (fst (snd e)))
              (sort_key (\<lambda>e. distance q (fst (snd e))) xs))"
    by (simp add: take_map comp_def)
  then show ?thesis
    by simp
qed

text \<open>
  C7. \<open>search\<close> never raises: for every collection, query, limit and filter it returns
  a list, and when the query of the collection raises it returns the empty list. On the
  collection that answers a query with the nearest matching chunks, the list holds at
  most \<open>limit\<close> texts (none for a limit below 1), each the text of a stored chunk that
  satisfies the filter, nearest first.
\<close>

theorem search_never_raises:
  "(\<exists>r c'. search B q n wh c = (Inr r, c'))
   \<and> (\<forall>e c'. coll_query B [q] n wh c = (Inl e, c') \<longrightarrow> search B q n wh c = (Inr [], c'))
   \<and> (\<exists>r. search (chroma distance) q n wh cc = (Inr r, cc)
          \<and> r = take (nat n) (map (\<lambda>e. fst (snd e))
                   (sort_key (\<lambda>e. distance q (fst (snd e))) (selected wh cc)))
          \<and> int (length r) \<le> max 0 n
          \<and> sorted (map (distance q) r)
          \<and> set r \<subseteq> (\<lambda>e. fst (snd e)) ` set (selected wh cc))"
proof (intro conjI)
  show "\<exists>r c'. search B q n wh c = (Inr r, c')"
    by (rule search_returns)
  show "\<forall>e c'. coll_query B [q] n wh c = (Inl e, c') \<longrightarrow> search B q n wh c = (Inr [], c')"
    by (intro allI impI) (rule search_query_raises)
  let ?r = "take (nat n) (map (\<lambda>e. fst (snd e))
                   (sort_key (\<lambda>e. distance q (fst (snd e))) (selected wh cc)))"
  have len: "int (length ?r) \<le> max 0 n"
    by simp
  have srt: "sorted (map (distance q) ?r)"
    by (rule search_chroma_sorted)
  have "set ?r \<subseteq> set (map (\<lambda>e. fst (snd e))
                   (sort_key (\<lambda>e. distance q (fst (snd e))) (selected wh cc)))"
    by (rule set_take_subset)
  then have sub: "set ?r \<subseteq> (\<lambda>e. fst (snd e)) ` set (selected wh cc)"
    by simp
  show "\<exists>r. search (chroma distance) q n wh cc = (Inr r, cc)
          \<and> r = ?r \<and> int (length r) \<le> max 0 n
          \<and> sorted (map (distance q) r)
          \<and> set r \<subseteq> (\<lambda>e. fst (snd e)) ` set (selected wh cc)"
    using search_chroma[of distance q n wh cc] len srt sub by blast
qed

lemma ex_eval:
  "take (nat 2) (map (\<lambda>e. fst (snd e))
                   (sort_key (\<lambda>e. by_length ''q'' (fst (snd e))) (selected None ex_coll)))
   = [''fact'', ''today'']"
  by (simp add: selected_def ex_coll_def by_length_def)

theorem search_never_raises_witness:
  "coll_query failing [''q''] 5 None () = (Inl BackendError, ())
   \<and> search failing ''q'' 5 None () = (Inr [], ())
   \<and> search (chroma by_length) ''q'' 2 None ex_coll = (Inr [''fact'', ''today''], ex_coll)"
proof -
  have q: "coll_query failing [''q''] 5 None () = (Inl BackendError, ())"
    by (simp add: failing_def)
  note T = search_never_raises[where B = failing and q = "''q''" and n = 5 and wh = None
      and c = "()" and distance = by_length and cc = ex_coll]
  from T[THEN conjunct2, THEN conjunct1] q
  have a: "search failing ''q'' 5 None () = (Inr [], ())"
    by blast
  note U = search_never_raises[where B = failing and q = "''q''" and n = 2 and wh = None
      and c = "()" and distance = by_length and cc = ex_coll]
  from U[THEN conjunct2, THEN conjunct2] obtain r where
    r: "search (chroma by_length) ''q'' 2 None ex_coll = (Inr r, ex_coll)"
       "r = take (nat 2) (map (\<lambda>e. fst (snd e))
                   (sort_key (\<lambda>e. by_length ''q'' (fst (snd e))) (selected None ex_coll)))"
    by blast
  from r have b: "search (chroma by_length) ''q'' 2 None ex_coll = (Inr [''fact'', ''today''], ex_coll)"
    unfolding ex_eval by simp
  from q a b show ?thesis by (intro conjI)
qed

lemma join_head: "\<exists>rest. join sep (x # xs) = x @ rest"
  by (cases xs) auto

lemma enumerate_from_one:
  "map (\<lambda>(i, x). F i x) (zip [1..<Suc (length xs)] xs)
   = map (\<lambda>i. F (Suc i) (xs ! i)) [0..<length xs]"
proof (rule nth_equalityI)
  show "length (map (\<lambda>(i, x). F i x) (zip [1..<Suc (length xs)] xs))
        = length (map (\<lambda>i. F (Suc i) (xs ! i)) [0..<length xs])"
    by (simp del: upt_Suc)
next
  fix i
  assume "i < length (map (\<lambda>(i, x). F i x) (zip [1..<Suc (length xs)] xs))"
  then have i: "i < length xs"
    by (simp del: upt_Suc)
  then have "zip [1..<Suc (length xs)] xs ! i = (Suc i, xs ! i)"
    by (simp del: upt_Suc)
  with i show "map (\<lambda>(i, x). F i x) (zip [1..<Suc (length xs)] xs) ! i
        = map (\<lambda>i. F (Suc i) (xs ! i)) [0..<length xs] ! i"
    by (simp del: upt_Suc)
qed

lemma fragment_lines_index:
  "fragment_lines results =
     (''Found '' @ str_nat (length results) @ '' relevant memory fragments:\<newline>'')
     # map (\<lambda>i. ''--- Fragment '' @ str_nat (Suc i) @ '' ---\<newline>'' @ results ! i @ ''\<newline>'')
           [0..<length results]"
  unfolding fragment_lines_def
  using enumerate_from_one[of "\<lambda>i chunk. ''--- Fragment '' @ str_nat i @ '' ---\<newline>'' @ chunk @ ''\<newline>''" results]
  by (simp only:)

lemma listing_not_sentinel:
  "join ''\<newline>'' (fragment_lines results) \<noteq> ''No memories found for: '' @ q"
proof -
  obtain rest where "join ''\<newline>'' (fragment_lines results)
      = (''Found '' @ str_nat (length results) @ '' relevant memory fragments:\<newline>'') @ rest"
    unfolding fragment_lines_def using join_head by blast
  then show ?thesis by simp
qed

text \<open>
  C8. With no vector store, \<open>search_memory\<close> returns the fixed message that semantic
  search is unavailable, whatever the query, and changes nothing. With a vector store it
  returns the text \<open>No memories found for:\<close> and the query exactly when the search over
  the refreshed index gives no result, and otherwise the numbered listing, whose first
  line states the number of results and which has one fragment per result, in order.
\<close>

theorem search_memory_outcomes:
  "(vector st = None \<longrightarrow>
      search_memory B clk q n st
        = (Inr ''Semantic search unavailable (chromadb not installed). Use read_file to read memory files directly.'',
           st))
   \<and> (\<forall>c. vector st = Some c \<longrightarrow>
        (\<exists>results c' out.
            search B q n None (refresh_today B clk (memory_dir st) c) = (Inr results, c')
          \<and> search_memory B clk q n st = (Inr out, st\<lparr>vector := Some c'\<rparr>)
          \<and> (out = ''No memories found for: '' @ q \<longleftrightarrow> results = [])
          \<and> (results \<noteq> [] \<longrightarrow>
               out = join ''\<newline>''
                 ((''Found '' @ str_nat (length results) @ '' relevant memory fragments:\<newline>'')
                  # map (\<lambda>i. ''--- Fragment '' @ str_nat (Suc i) @ '' ---\<newline>''
                               @ results ! i @ ''\<newline>'')
                        [0..<length results]))))"
proof (intro conjI allI impI)
  assume "vector st = None"
  then show "search_memory B clk q n st
        = (Inr ''Semantic search unavailable (chromadb not installed). Use read_file to read memory files directly.'',
           st)"
    by (simp add: search_memory_def unavailable_message_def)
next
  fix c
  assume c: "vector st = Some c"
  obtain results c' where s:
    "search B q n None (refresh_today B clk (memory_dir st) c) = (Inr results, c')"
    using search_returns[of B q n None "refresh_today B clk (memory_dir st) c"] by blast
  let ?listing = "join ''\<newline>''
                 ((''Found '' @ str_nat (length results) @ '' relevant memory fragments:\<newline>'')
                  # map (\<lambda>i. ''--- Fragment '' @ str_nat (Suc i) @ '' ---\<newline>''
                               @ results ! i @ ''\<newline>'')
                        [0..<length results])"
  have listing: "join ''\<newline>'' (fragment_lines results) = ?listing"
    by (simp only: fragment_lines_index)
  have ns: "?listing \<noteq> ''No memories found for: '' @ q"
    using listing_not_sentinel[of results q] unfolding listing .
  show "\<exists>results c' out.
            search B q n None (refresh_today B clk (memory_dir st) c) = (Inr results, c')
          \<and> search_memory B clk q n st = (Inr out, st\<lparr>vector := Some c'\<rparr>)
          \<and> (out = ''No memories found for: '' @ q \<longleftrightarrow> results = [])
          \<and> (results \<noteq> [] \<longrightarrow>
               out = join ''\<newline>''
                 ((''Found '' @ str_nat (length results) @ '' relevant memory fragments:\<newline>'')
                  # map (\<lambda>i. ''--- Fragment '' @ str_nat (Suc i) @ '' ---\<newline>''
                               @ results ! i @ ''\<newline>'')
                        [0..<length results]))"
  proof (cases "results = []")
    case True
    with c s have out: "search_memory B clk q n st
        = (Inr (''No memories found for: '' @ q), st\<lparr>vector := Some c'\<rparr>)"
      by (simp add: search_memory_def)
    have "search B q n None (refresh_today B clk (memory_dir st) c) = (Inr results, c')
          \<and> search_memory B clk q n st = (Inr (''No memories found for: '' @ q), st\<lparr>vector := Some c'\<rparr>)
          \<and> (''No memories found for: '' @ q = ''No memories found for: '' @ q \<longleftrightarrow> results = [])
          \<and> (results \<noteq> [] \<longrightarrow> ''No memories found for: '' @ q = ?listing)"
      using True s out by simp
    then show ?thesis
      apply -
      apply (rule exI)+
      apply assumption
      done
  next
    case False
    with c s have out: "search_memory B clk q n st = (Inr ?listing, st\<lparr>vector := Some c'\<rparr>)"
      by (simp add: search_memory_def listing)
    have "search B q n None (refresh_today B clk (memory_dir st) c) = (Inr results, c')
          \<and> search_memory B clk q n st = (Inr ?listing, st\<lparr>vector := Some c'\<rparr>)
          \<and> (?listing = ''No memories found for: '' @ q \<longleftrightarrow> results = [])
          \<and> (results \<noteq> [] \<longrightarrow> ?listing = ?listing)"
      using False s out ns by simp
    then show ?thesis
      apply -
      apply (rule exI)+
      apply assumption
      done
  qed
qed

theorem search_memory_outcomes_witness:
  "vector no_index_store = None
   \<and> search_memory failing ex_clock ''q'' 10 no_index_store
       = (Inr ''Semantic search unavailable (chromadb not installed). Use read_file to read memory files directly.'',
          no_index_store)
   \<and> vector down_store = Some ()
   \<and> search_memory failing ex_clock ''q'' 10 down_store = (Inr ''No memories found for: q'', down_store)
   \<and> vector indexed_store = Some ex_coll
   \<and> search_memory (chroma by_length) ex_clock ''q'' 2 indexed_store
       = (Inr ''Found 2 relevant memory fragments:\<newline>\<newline>--- Fragment 1 ---\<newline>fact\<newline>\<newline>--- Fragment 2 ---\<newline>today\<newline>'',
          indexed_store)"
proof -
  have v0: "vector no_index_store = None"
    by (simp add: no_index_store_def)
  have v1: "vector down_store = Some ()"
    by (simp add: down_store_def)
  have v2: "vector indexed_store = Some ex_coll"
    by (simp add: indexed_store_def)
  from search_memory_outcomes[where st = no_index_store and B = failing and clk = ex_clock
      and q = "''q''" and n = 10, THEN conjunct1] v0
  have a: "search_memory failing ex_clock ''q'' 10 no_index_store
       = (Inr ''Semantic search unavailable (chromadb not installed). Use read_file to read memory files directly.'',
          no_index_store)"
    by (rule mp)
  have s1: "search failing ''q'' 10 None (refresh_today failing ex_clock (memory_dir down_store) ())
            = (Inr [], ())"
    by (simp add: search_def failing_def)
  have same1: "down_store\<lparr>vector := Some ()\<rparr> = down_store"
    by (simp add: down_store_def)
  from search_memory_outcomes[where st = down_store and B = failing and clk = ex_clock
      and q = "''q''" and n = 10, THEN conjunct2] v1
  obtain results c' out where o:
    "search failing ''q'' 10 None (refresh_today failing ex_clock (memory_dir down_store) ())
       = (Inr results, c')"
    "search_memory failing ex_clock ''q'' 10 down_store = (Inr out, down_store\<lparr>vector := Some c'\<rparr>)"
    "out = ''No memories found for: '' @ ''q'' \<longleftrightarrow> results = []"
    by blast
  from o(1) s1 have "results = []" by simp
  with o have b: "search_memory failing ex_clock ''q'' 10 down_store
                  = (Inr ''No memories found for: q'', down_store)"
    using same1 by simp
  have refresh: "refresh_today (chroma by_length) ex_clock (memory_dir indexed_store) ex_coll = ex_coll"
    by (simp add: refresh_today_def indexed_store_def path_exists_def)
  have s2: "search (chroma by_length) ''q'' 2 None ex_coll = (Inr [''fact'', ''today''], ex_coll)"
    using ex_eval by (simp add: search_chroma)
  have same2: "indexed_store\<lparr>vector := Some ex_coll\<rparr> = indexed_store"
    by (simp add: indexed_store_def)
  have n1: "str_nat (Suc 0) = ''1''" and n2: "str_nat 2 = ''2''" and n2': "str_nat (Suc (Suc 0)) = ''2''"
    by code_simp+
  from search_memory_outcomes[where st = indexed_store and B = "chroma by_length" and clk = ex_clock
      and q = "''q''" and n = 2, THEN conjunct2] v2
  obtain results c' out where p:
    "search (chroma by_length) ''q'' 2 None
        (refresh_today (chroma by_length) ex_clock (memory_dir indexed_store) ex_coll)
       = (Inr results, c')"
    "search_memory (chroma by_length) ex_clock ''q'' 2 indexed_store
       = (Inr out, indexed_store\<lparr>vector := Some c'\<rparr>)"
    "results \<noteq> [] \<longrightarrow>
               out = join ''\<newline>''
                 ((''Found '' @ str_nat (length results) @ '' relevant memory fragments:\<newline>'')
                  # map (\<lambda>i. ''--- Fragment '' @ str_nat (Suc i) @ '' ---\<newline>''
                               @ results ! i @ ''\<newline>'')
                        [0..<length results])"
    by blast
  from p(1) s2 have res: "results = [''fact'', ''today'']" and c': "c' = ex_coll"
    unfolding refresh by simp_all
  from p(3) have "out = ''Found 2 relevant memory fragments:\<newline>\<newline>--- Fragment 1 ---\<newline>fact\<newline>\<newline>--- Fragment 2 ---\<newline>today\<newline>''"
    unfolding res by (simp add: n1 n2 n2' upt_rec)
  with p(2) c' same2 have c: "search_memory (chroma by_length) ex_clock ''q'' 2 indexed_store
       = (Inr ''Found 2 relevant memory fragments:\<newline>\<newline>--- Fragment 1 ---\<newline>fact\<newline>\<newline>--- Fragment 2 ---\<newline>today\<newline>'',
          indexed_store)"
    by simp
  from v0 a v1 b v2 c show ?thesis by (intro conjI)
qed

lemma selected_today_filter:
  assumes "e \<in> set (selected (Some (And [Eq ''type'' ''daily'', Ne ''source'' today])) cc)"
  shows "e \<in> set cc \<and> map_of (snd (snd e)) ''type'' = Some ''daily''
         \<and> map_of (snd (snd e)) ''source'' \<noteq> Some today"
  using assms by (simp add: selected_def)

text \<open>
  C5. With a vector store and a non-empty query, \<open>get_memory_context\<close> returns the
  sections it returns without a query followed, when the search has results, by the
  section of relevant past memories, which is the joined result of one search with the
  limit 5 and the filter: type is daily and source is not today's date string. On the
  collection that answers a query with the nearest matching chunks, that search returns
  at most 5 texts, each the text of a stored chunk whose type is daily and whose source
  is not today's date string.
\<close>

theorem past_memories_exclude_today:
  assumes "vector st = Some c" and "q \<noteq> []"
  shows "(\<exists>parts results c'.
            get_memory_context B clk None st = (Inr (join ''\<newline>\<newline>'' parts), st)
          \<and> search B q 5 (Some (And [Eq ''type'' ''daily'', Ne ''source'' (today_date clk)]))
                (refresh_today B clk (memory_dir st) c) = (Inr results, c')
          \<and> get_memory_context B clk (Some q) st
              = (Inr (join ''\<newline>\<newline>''
                       (parts @ (if results = [] then []
                                 else [''## Relevant Past Memories\<newline>''
                                       @ join ''\<newline>\<newline>---\<newline>\<newline>'' results]))),
                 st\<lparr>vector := Some c'\<rparr>))
   \<and> (\<exists>results.
            search (chroma distance) q 5
                (Some (And [Eq ''type'' ''daily'', Ne ''source'' (today_date clk)])) cc
              = (Inr results, cc)
          \<and> length results \<le> 5
          \<and> (\<forall>r \<in> set results. \<exists>e \<in> set cc.
                 fst (snd e) = r
               \<and> map_of (snd (snd e)) ''type'' = Some ''daily''
               \<and> map_of (snd (snd e)) ''source'' \<noteq> Some (today_date clk)))"
proof (rule conjI)
  obtain lt where lt: "read_long_term st = (Inr lt, st)"
    using read_long_term_returns[of st] by blast
  obtain td where td: "read_today clk st = (Inr td, st)"
    using read_today_returns[of clk st] by blast
  let ?parts = "(if lt \<noteq> [] then [''## Long-term Memory\<newline>'' @ lt] else [])
              @ (if td \<noteq> [] then [''## Today'' @ [CHR 0x27] @ ''s Notes\<newline>'' @ td] else [])"
  let ?wh = "Some (And [Eq ''type'' ''daily'', Ne ''source'' (today_date clk)])"
  obtain results c' where s:
    "search B q 5 ?wh (refresh_today B clk (memory_dir st) c) = (Inr results, c')"
    using search_returns[of B q 5 ?wh "refresh_today B clk (memory_dir st) c"] by blast
  have none: "get_memory_context B clk None st = (Inr (join ''\<newline>\<newline>'' ?parts), st)"
    by (simp add: get_memory_context_def lt td Let_def)
  have some: "get_memory_context B clk (Some q) st
              = (Inr (join ''\<newline>\<newline>''
                       (?parts @ (if results = [] then []
                                 else [''## Relevant Past Memories\<newline>''
                                       @ join ''\<newline>\<newline>---\<newline>\<newline>'' results]))),
                 st\<lparr>vector := Some c'\<rparr>)"
    using assms s by (simp add: get_memory_context_def lt td Let_def today_filter_def)
  from none s some
  have "get_memory_context B clk None st = (Inr (join ''\<newline>\<newline>'' ?parts), st)
          \<and> search B q 5 ?wh (refresh_today B clk (memory_dir st) c) = (Inr results, c')
          \<and> get_memory_context B clk (Some q) st
              = (Inr (join ''\<newline>\<newline>''
                       (?parts @ (if results = [] then []
                                 else [''## Relevant Past Memories\<newline>''
                                       @ join ''\<newline>\<newline>---\<newline>\<newline>'' results]))),
                 st\<lparr>vector := Some c'\<rparr>)"
    by (intro conjI)
  then show "\<exists>parts results c'.
            get_memory_context B clk None st = (Inr (join ''\<newline>\<newline>'' parts), st)
          \<and> search B q 5 ?wh (refresh_today B clk (memory_dir st) c) = (Inr results, c')
          \<and> get_memory_context B clk (Some q) st
              = (Inr (join ''\<newline>\<newline>''
                       (parts @ (if results = [] then []
                                 else [''## Relevant Past Memories\<newline>''
                                       @ join ''\<newline>\<newline>---\<newline>\<newline>'' results]))),
                 st\<lparr>vector := Some c'\<rparr>)"
    apply -
    apply (rule exI)+
    apply assumption
    done
next
  let ?wh = "Some (And [Eq ''type'' ''daily'', Ne ''source'' (today_date clk)])"
  let ?r = "take (nat 5) (map (\<lambda>e. fst (snd e))
              (sort_key (\<lambda>e. distance q (fst (snd e))) (selected ?wh cc)))"
  have s: "search (chroma distance) q 5 ?wh cc = (Inr ?r, cc)"
    by (rule search_chroma)
  have len: "length ?r \<le> 5"
    by simp
  have src: "\<forall>r \<in> set ?r. \<exists>e \<in> set cc.
                 fst (snd e) = r
               \<and> map_of (snd (snd e)) ''type'' = Some ''daily''
               \<and> map_of (snd (snd e)) ''source'' \<noteq> Some (today_date clk)"
  proof
    fix r
    assume "r \<in> set ?r"
    then have "r \<in> set (map (\<lambda>e. fst (snd e))
              (sort_key (\<lambda>e. distance q (fst (snd e))) (selected ?wh cc)))"
      by (rule in_set_takeD)
    then obtain e where e: "e \<in> set (selected ?wh cc)" "fst (snd e) = r"
      by auto
    from selected_today_filter[OF e(1)] e(2)
    show "\<exists>e \<in> set cc. fst (snd e) = r
               \<and> map_of (snd (snd e)) ''type'' = Some ''daily''
               \<and> map_of (snd (snd e)) ''source'' \<noteq> Some (today_date clk)"
      by blast
  qed
  from s len src
  show "\<exists>results.
            search (chroma distance) q 5 ?wh cc = (Inr results, cc)
          \<and> length results \<le> 5
          \<and> (\<forall>r \<in> set results. \<exists>e \<in> set cc.
                 fst (snd e) = r
               \<and> map_of (snd (snd e)) ''type'' = Some ''daily''
               \<and> map_of (snd (snd e)) ''source'' \<noteq> Some (today_date clk))"
    by (intro exI[of _ ?r] conjI)
qed

lemma ex_eval_filtered:
  "take (nat 5) (map (\<lambda>e. fst (snd e))
       (sort_key (\<lambda>e. by_length ''q'' (fst (snd e)))
          (selected (Some (And [Eq ''type'' ''daily'', Ne ''source'' ''2025-06-02''])) ex_coll)))
   = [''an older note'']"
  by (simp add: selected_def ex_coll_def by_length_def)

theorem past_memories_exclude_today_witness:
  "vector indexed_store = Some ex_coll
   \<and> ''q'' \<noteq> []
   \<and> search (chroma by_length) ''q'' 5 None ex_coll
       = (Inr [''fact'', ''today'', ''an older note''], ex_coll)
   \<and> search (chroma by_length) ''q'' 5
        (Some (And [Eq ''type'' ''daily'', Ne ''source'' (today_date ex_clock)])) ex_coll
       = (Inr [''an older note''], ex_coll)
   \<and> get_memory_context (chroma by_length) ex_clock (Some ''q'') indexed_store
       = (Inr ''## Relevant Past Memories\<newline>an older note'', indexed_store)"
proof -
  have v: "vector indexed_store = Some ex_coll"
    by (simp add: indexed_store_def)
  have q: "''q'' \<noteq> []"
    by simp
  have t: "today_date ex_clock = ''2025-06-02''"
    by (simp add: ex_clock_def)
  have all: "search (chroma by_length) ''q'' 5 None ex_coll
       = (Inr [''fact'', ''today'', ''an older note''], ex_coll)"
    by (simp add: search_chroma selected_def ex_coll_def by_length_def)
  have filtered: "search (chroma by_length) ''q'' 5
        (Some (And [Eq ''type'' ''daily'', Ne ''source'' (today_date ex_clock)])) ex_coll
       = (Inr [''an older note''], ex_coll)"
    unfolding t search_chroma ex_eval_filtered by simp
  have refresh: "refresh_today (chroma by_length) ex_clock (memory_dir indexed_store) ex_coll = ex_coll"
    by (simp add: refresh_today_def indexed_store_def path_exists_def)
  have same: "indexed_store\<lparr>vector := Some ex_coll\<rparr> = indexed_store"
    by (simp add: indexed_store_def)
  from past_memories_exclude_today[OF v q, where B = "chroma by_length" and clk = ex_clock
      and distance = by_length and cc = ex_coll, THEN conjunct1]
  obtain parts results c' where p:
    "search (chroma by_length) ''q'' 5
        (Some (And [Eq ''type'' ''daily'', Ne ''source'' (today_date ex_clock)]))
        (refresh_today (chroma by_length) ex_clock (memory_dir indexed_store) ex_coll)
       = (Inr results, c')"
    "get_memory_context (chroma by_length) ex_clock (Some ''q'') indexed_store
       = (Inr (join ''\<newline>\<newline>''
                (parts @ (if results = [] then []
                          else [''## Relevant Past Memories\<newline>''
                                @ join ''\<newline>\<newline>---\<newline>\<newline>'' results]))),
          indexed_store\<lparr>vector := Some c'\<rparr>)"
    by blast
  from p(1) filtered have res: "results = [''an older note'']" and c': "c' = ex_coll"
    unfolding refresh by simp_all
  have ctx: "snd (get_memory_context (chroma by_length) ex_clock (Some ''q'') indexed_store)
             = indexed_store"
    using p(2) c' same by simp
  have direct: "fst (get_memory_context (chroma by_length) ex_clock (Some ''q'') indexed_store)
       = Inr ''## Relevant Past Memories\<newline>an older note''"
    using filtered refresh
    by (simp add: get_memory_context_def read_long_term_def read_today_def path_exists_def
          Let_def today_filter_def v) (simp add: indexed_store_def)
  from ctx direct have g: "get_memory_context (chroma by_length) ex_clock (Some ''q'') indexed_store
       = (Inr ''## Relevant Past Memories\<newline>an older note'', indexed_store)"
    by (cases "get_memory_context (chroma by_length) ex_clock (Some ''q'') indexed_store") simp
  from v q all filtered g show ?thesis by (intro conjI)
qed

end
